theory Spec2Isabelle
  imports Main "HOL-Library.Multiset" "HOL-Library.Product_Lexorder"
begin

section \<open>Errors raised by the program\<close>

text \<open>
  The exceptions that the statements of \<^verbatim>\<open>app.py\<close> can raise: Python's own
  (\<^verbatim>\<open>OverflowError\<close> from date arithmetic, \<^verbatim>\<open>StopIteration\<close> from \<^verbatim>\<open>next\<close>) and
  the classes of \<^verbatim>\<open>psycopg2.errors\<close> that the constraints of the three tables can
  produce.
\<close>

datatype error =
    OverflowError
  | StopIteration
  | KeyError
  | UniqueViolation
  | ForeignKeyViolation
  | StringDataRightTruncation

section \<open>Calendar dates\<close>

text \<open>
  \<^verbatim>\<open>datetime.date\<close>: a year, a month and a day of the proleptic Gregorian calendar,
  years 1 to 9999. The program reads \<^verbatim>\<open>.year\<close> and \<^verbatim>\<open>.month\<close>, adds
  \<^verbatim>\<open>timedelta(days=6)\<close> and lets the database compare dates.
\<close>

record date =
  year :: int
  month :: int
  day :: int

definition is_leap :: "int \<Rightarrow> bool" where
  "is_leap y \<longleftrightarrow> y mod 4 = 0 \<and> (y mod 100 \<noteq> 0 \<or> y mod 400 = 0)"

definition days_in_month :: "int \<Rightarrow> int \<Rightarrow> int" where
  "days_in_month y m =
     (if m = 2 then (if is_leap y then 29 else 28)
      else if m = 4 \<or> m = 6 \<or> m = 9 \<or> m = 11 then 30
      else 31)"

definition valid_date :: "date \<Rightarrow> bool" where
  "valid_date d \<longleftrightarrow>
     1 \<le> year d \<and> year d \<le> 9999 \<and> 1 \<le> month d \<and> month d \<le> 12 \<and>
     1 \<le> day d \<and> day d \<le> days_in_month (year d) (month d)"

definition next_day :: "date \<Rightarrow> date" where
  "next_day d =
     (if day d < days_in_month (year d) (month d) then d\<lparr>day := day d + 1\<rparr>
      else if month d < 12 then d\<lparr>month := month d + 1, day := 1\<rparr>
      else \<lparr>year = year d + 1, month = 1, day = 1\<rparr>)"

primrec plus_days :: "nat \<Rightarrow> date \<Rightarrow> date" where
  "plus_days 0 d = d"
| "plus_days (Suc n) d = plus_days n (next_day d)"

text \<open>
  \<^verbatim>\<open>d + timedelta(days=n)\<close> for \<open>n \<ge> 0\<close>: the date \<open>n\<close> days later, and
  \<^verbatim>\<open>OverflowError\<close> when that is after 9999-12-31.
\<close>

definition date_add_days :: "date \<Rightarrow> nat \<Rightarrow> error + date" where
  "date_add_days d n =
     (let e = plus_days n d in if year e > 9999 then Inl OverflowError else Inr e)"

text \<open>
  Dates are compared as (year, month, day) triples, which on valid dates is the
  chronological order that both Python and the database use.
\<close>

definition date_key :: "date \<Rightarrow> int \<times> int \<times> int" where
  "date_key d = (year d, month d, day d)"

definition date_le :: "date \<Rightarrow> date \<Rightarrow> bool" where
  "date_le a b \<longleftrightarrow> date_key a \<le> date_key b"

section \<open>The three tables\<close>

text \<open>
  The rows of \<^verbatim>\<open>users\<close>, \<^verbatim>\<open>work_reports\<close> and \<^verbatim>\<open>tasks\<close> as \<^verbatim>\<open>init_db\<close> creates
  them. A table is the list of its rows in insertion order; each \<^verbatim>\<open>SERIAL\<close> column
  draws from its own sequence, whose next value is part of the state.
  \<^verbatim>\<open>created_at\<close> is the clock reading at insertion. In a \<open>string\<close> one element
  stands for one character of the text. \<^verbatim>\<open>due_date\<close> is nullable in the
  schema, but the only \<^verbatim>\<open>INSERT\<close> into \<^verbatim>\<open>tasks\<close> supplies the value of a date
  input, so the model keeps a date there.
\<close>

record user =
  u_id :: int
  u_username :: string
  u_password :: string
  u_role :: string

record work_report =
  wr_id :: int
  wr_user_id :: int
  wr_report_date :: date
  wr_report_content :: string
  wr_created_at :: int

record task =
  t_id :: int
  t_user_id :: int
  t_task_description :: string
  t_due_date :: date
  t_status :: string
  t_created_at :: int

record db =
  users :: "user list"
  work_reports :: "work_report list"
  tasks :: "task list"
  users_id_seq :: int
  work_reports_id_seq :: int
  tasks_id_seq :: int

section \<open>Report queries\<close>

text \<open>
  The \<^verbatim>\<open>if\<close>/\<^verbatim>\<open>elif\<close> chain that appends the period condition to the query
  (\<^verbatim>\<open>admin_view_reports\<close> and \<^verbatim>\<open>employee_view_reports\<close> carry the same chain):
  the condition on \<^verbatim>\<open>report_date\<close>, or the error of computing \<^verbatim>\<open>week_end\<close>.
  \<^verbatim>\<open>BETWEEN a AND b\<close> is \<open>a \<le> x \<and> x \<le> b\<close>. \<open>selected_date\<close> is the value
  of the date input as the query receives it: the Monday of the current week, the
  first of the month and the first of the year are only what the input shows
  before the user picks a date.
\<close>

definition period_clause :: "string \<Rightarrow> date \<Rightarrow> error + (date \<Rightarrow> bool)" where
  "period_clause report_period selected_date =
     (if report_period = ''Daily'' then
        Inr (\<lambda>report_date. report_date = selected_date)
      else if report_period = ''Weekly'' then
        (case date_add_days selected_date 6 of
           Inl e \<Rightarrow> Inl e
         | Inr week_end \<Rightarrow>
             Inr (\<lambda>report_date. date_le selected_date report_date \<and> date_le report_date week_end))
      else if report_period = ''Monthly'' then
        Inr (\<lambda>report_date. year report_date = year selected_date
                           \<and> month report_date = month selected_date)
      else
        Inr (\<lambda>report_date. year report_date = year selected_date))"

text \<open>
  \<^verbatim>\<open>ORDER BY report_date DESC\<close>. The order among rows of the same date is the
  engine's choice; the model fixes one.
\<close>

definition order_by_report_date_desc :: "('r \<Rightarrow> date) \<Rightarrow> 'r list \<Rightarrow> 'r list" where
  "order_by_report_date_desc col rows = rev (sort_key (\<lambda>r. date_key (col r)) rows)"

text \<open>
  The query of \<^verbatim>\<open>employee_view_reports\<close>: the reports of \<open>user_id\<close> in the period,
  newest first, as (report_date, report_content) rows.
\<close>

definition employee_reports_query ::
  "db \<Rightarrow> int \<Rightarrow> string \<Rightarrow> date \<Rightarrow> error + (date \<times> string) list" where
  "employee_reports_query s user_id report_period selected_date =
     (case period_clause report_period selected_date of
        Inl e \<Rightarrow> Inl e
      | Inr cond \<Rightarrow>
          Inr (map (\<lambda>wr. (wr_report_date wr, wr_report_content wr))
                (order_by_report_date_desc wr_report_date
                  (filter (\<lambda>wr. wr_user_id wr = user_id \<and> cond (wr_report_date wr))
                     (work_reports s)))))"

text \<open>\<^verbatim>\<open>FROM work_reports wr JOIN users u ON wr.user_id = u.id\<close>\<close>

definition work_reports_join_users :: "db \<Rightarrow> (work_report \<times> user) list" where
  "work_reports_join_users s =
     concat (map (\<lambda>wr. map (\<lambda>u. (wr, u)) (filter (\<lambda>u. wr_user_id wr = u_id u) (users s)))
                 (work_reports s))"

text \<open>
  The query of \<^verbatim>\<open>admin_view_reports\<close>: the reports of every user, or of the one whose
  username was selected, in the period, newest first, as
  (username, report_date, report_content) rows.
\<close>

definition admin_reports_query ::
  "db \<Rightarrow> string \<Rightarrow> string \<Rightarrow> date \<Rightarrow> error + (string \<times> date \<times> string) list" where
  "admin_reports_query s selected_employee report_period selected_date =
     (case period_clause report_period selected_date of
        Inl e \<Rightarrow> Inl e
      | Inr cond \<Rightarrow>
          Inr (map (\<lambda>(wr, u). (u_username u, wr_report_date wr, wr_report_content wr))
                (order_by_report_date_desc (\<lambda>(wr, u). wr_report_date wr)
                  (filter (\<lambda>(wr, u).
                              (selected_employee \<noteq> ''All Employees''
                                 \<longrightarrow> u_username u = selected_employee)
                              \<and> cond (wr_report_date wr))
                     (work_reports_join_users s)))))"

section \<open>The period resolver as the specification words it\<close>

datatype period_kind = Daily | Weekly | Monthly | Yearly

fun period_label :: "period_kind \<Rightarrow> string" where
  "period_label Daily = ''Daily''"
| "period_label Weekly = ''Weekly''"
| "period_label Monthly = ''Monthly''"
| "period_label Yearly = ''Yearly''"

text \<open>
  The predicate over \<^verbatim>\<open>report_date\<close> that the specification gives for each period
  kind and anchor date. The closed range of a week exists when anchor + 6 days does.
\<close>

fun resolve :: "period_kind \<Rightarrow> date \<Rightarrow> date \<Rightarrow> bool" where
  "resolve Daily anchor report_date \<longleftrightarrow> report_date = anchor"
| "resolve Weekly anchor report_date \<longleftrightarrow>
     (case date_add_days anchor 6 of
        Inl e \<Rightarrow> False
      | Inr week_end \<Rightarrow> date_le anchor report_date \<and> date_le report_date week_end)"
| "resolve Monthly anchor report_date \<longleftrightarrow>
     year report_date = year anchor \<and> month report_date = month anchor"
| "resolve Yearly anchor report_date \<longleftrightarrow> year report_date = year anchor"

section \<open>Bootstrap and statements on the tables\<close>

text \<open>
  A database on which \<^verbatim>\<open>CREATE TABLE IF NOT EXISTS\<close> has just created the three
  tables: no rows, every sequence at its first value.
\<close>

definition empty_db :: db where
  "empty_db = \<lparr>users = [], work_reports = [], tasks = [],
                users_id_seq = 1, work_reports_id_seq = 1, tasks_id_seq = 1\<rparr>"

text \<open>
  Storing a value in a \<^verbatim>\<open>VARCHAR(n)\<close> column: a longer value is an error unless
  the excess characters are all spaces, in which case it is cut to \<open>n\<close> characters.
\<close>

definition varchar :: "nat \<Rightarrow> string \<Rightarrow> error + string" where
  "varchar n v =
     (if length v \<le> n then Inr v
      else if list_all (\<lambda>c. c = CHR '' '') (drop n v) then Inr (take n v)
      else Inl StringDataRightTruncation)"

text \<open>
  \<^verbatim>\<open>INSERT INTO users (username, password, role) VALUES (%s, %s, %s)\<close> under
  \<^verbatim>\<open>username VARCHAR(50) UNIQUE NOT NULL\<close>. The other two columns only ever receive
  values that fit them: a SHA-256 hex digest of 64 characters and the constants
  \<^verbatim>\<open>'admin'\<close> and \<^verbatim>\<open>'employee'\<close>. A statement that fails is rolled back, so the
  model returns the error alone; the sequence moves on successful inserts (the
  value that a failed insert consumes in PostgreSQL is not tracked, ids stay fresh
  either way).
\<close>

definition insert_users :: "db \<Rightarrow> string \<Rightarrow> string \<Rightarrow> string \<Rightarrow> error + db" where
  "insert_users s username password role =
     (case varchar 50 username of
        Inl e \<Rightarrow> Inl e
      | Inr stored \<Rightarrow>
          if stored \<in> u_username ` set (users s) then Inl UniqueViolation
          else Inr (s\<lparr>users := users s @
                          [\<lparr>u_id = users_id_seq s, u_username = stored,
                            u_password = password, u_role = role\<rparr>],
                       users_id_seq := users_id_seq s + 1\<rparr>))"

text \<open>
  \<^verbatim>\<open>INSERT INTO work_reports (user_id, report_date, report_content)\<close> under
  \<^verbatim>\<open>user_id INTEGER REFERENCES users(id)\<close>; \<open>now\<close> is \<^verbatim>\<open>CURRENT_TIMESTAMP\<close>.
\<close>

definition insert_work_reports :: "db \<Rightarrow> int \<Rightarrow> date \<Rightarrow> string \<Rightarrow> int \<Rightarrow> error + db" where
  "insert_work_reports s user_id report_date report_content now =
     (if user_id \<notin> u_id ` set (users s) then Inl ForeignKeyViolation
      else Inr (s\<lparr>work_reports := work_reports s @
                      [\<lparr>wr_id = work_reports_id_seq s, wr_user_id = user_id,
                        wr_report_date = report_date, wr_report_content = report_content,
                        wr_created_at = now\<rparr>],
                   work_reports_id_seq := work_reports_id_seq s + 1\<rparr>))"

text \<open>
  \<^verbatim>\<open>INSERT INTO tasks (user_id, task_description, due_date)\<close>; \<^verbatim>\<open>status\<close> takes its
  default \<^verbatim>\<open>'pending'\<close>.
\<close>

definition insert_tasks :: "db \<Rightarrow> int \<Rightarrow> string \<Rightarrow> date \<Rightarrow> int \<Rightarrow> error + db" where
  "insert_tasks s user_id task_description due_date now =
     (if user_id \<notin> u_id ` set (users s) then Inl ForeignKeyViolation
      else Inr (s\<lparr>tasks := tasks s @
                      [\<lparr>t_id = tasks_id_seq s, t_user_id = user_id,
                        t_task_description = task_description, t_due_date = due_date,
                        t_status = ''pending'', t_created_at = now\<rparr>],
                   tasks_id_seq := tasks_id_seq s + 1\<rparr>))"

text \<open>\<^verbatim>\<open>UPDATE work_reports SET report_content = %s WHERE id = %s\<close>\<close>

definition update_report_content :: "db \<Rightarrow> string \<Rightarrow> int \<Rightarrow> db" where
  "update_report_content s report_content report_id =
     s\<lparr>work_reports :=
          map (\<lambda>wr. if wr_id wr = report_id then wr\<lparr>wr_report_content := report_content\<rparr>
                     else wr)
              (work_reports s)\<rparr>"

text \<open>\<^verbatim>\<open>UPDATE tasks SET status = 'completed' WHERE id = %s\<close>\<close>

definition complete :: "db \<Rightarrow> int \<Rightarrow> db" where
  "complete s task_id =
     s\<lparr>tasks := map (\<lambda>t. if t_id t = task_id then t\<lparr>t_status := ''completed''\<rparr> else t)
                     (tasks s)\<rparr>"

text \<open>\<^verbatim>\<open>DELETE FROM work_reports WHERE user_id = %s\<close>\<close>

definition delete_work_reports :: "db \<Rightarrow> int \<Rightarrow> db" where
  "delete_work_reports s user_id =
     s\<lparr>work_reports := filter (\<lambda>wr. wr_user_id wr \<noteq> user_id) (work_reports s)\<rparr>"

text \<open>\<^verbatim>\<open>DELETE FROM tasks WHERE user_id = %s\<close>\<close>

definition delete_tasks :: "db \<Rightarrow> int \<Rightarrow> db" where
  "delete_tasks s user_id = s\<lparr>tasks := filter (\<lambda>t. t_user_id t \<noteq> user_id) (tasks s)\<rparr>"

text \<open>
  \<^verbatim>\<open>DELETE FROM users WHERE id = %s\<close>. Both \<^verbatim>\<open>REFERENCES users(id)\<close> columns have
  no \<^verbatim>\<open>ON DELETE\<close> rule, so deleting a user that a report or a task still refers
  to is refused.
\<close>

definition delete_users :: "db \<Rightarrow> int \<Rightarrow> error + db" where
  "delete_users s user_id =
     (if user_id \<in> u_id ` set (users s)
         \<and> (user_id \<in> wr_user_id ` set (work_reports s) \<or> user_id \<in> t_user_id ` set (tasks s))
      then Inl ForeignKeyViolation
      else Inr (s\<lparr>users := filter (\<lambda>u. u_id u \<noteq> user_id) (users s)\<rparr>))"

text \<open>
  \<^verbatim>\<open>hash_password\<close>. The digest \<^verbatim>\<open>hashlib.sha256(...).hexdigest()\<close> is a library
  function; every definition that hashes takes it as the parameter \<open>sha256\<close>, from
  the password (its encoding included) to the hexadecimal digest.
\<close>

definition hash_password :: "(string \<Rightarrow> string) \<Rightarrow> string \<Rightarrow> string" where
  "hash_password sha256 password = sha256 password"

text \<open>
  \<^verbatim>\<open>init_db\<close> after the tables exist: the admin account is inserted unless a user
  named \<^verbatim>\<open>admin\<close> is there already.
\<close>

definition init_db :: "(string \<Rightarrow> string) \<Rightarrow> db \<Rightarrow> error + db" where
  "init_db sha256 s =
     (if find (\<lambda>u. u_username u = ''admin'') (users s) = None
      then insert_users s ''admin'' (sha256 ''admin123'') ''admin''
      else Inr s)"

text \<open>
  \<^verbatim>\<open>authenticate\<close>: the first row of
  \<^verbatim>\<open>SELECT * FROM users WHERE username = %s AND password = %s\<close>, or \<^verbatim>\<open>None\<close>.
\<close>

definition authenticate :: "(string \<Rightarrow> string) \<Rightarrow> db \<Rightarrow> string \<Rightarrow> string \<Rightarrow> user option" where
  "authenticate sha256 s username password =
     (let hashed_password = hash_password sha256 password
      in find (\<lambda>u. u_username u = username \<and> u_password u = hashed_password) (users s))"

section \<open>Pages\<close>

text \<open>
  What a page function shows through \<^verbatim>\<open>st.success\<close>, \<^verbatim>\<open>st.warning\<close>,
  \<^verbatim>\<open>st.error\<close> and \<^verbatim>\<open>st.info\<close>, in the order of the calls. A page function takes
  the database, the values of its widgets and, where it inserts, the clock; it
  returns the exception it lets escape, or its messages, the table it displays
  (where a claim is about it) and the database after its commit.
\<close>

datatype message =
    St_success string
  | St_warning string
  | St_error string
  | St_info string

text \<open>\<^verbatim>\<open>SELECT ... FROM users WHERE role = 'employee'\<close>\<close>

definition select_employees :: "db \<Rightarrow> user list" where
  "select_employees s = filter (\<lambda>u. u_role u = ''employee'') (users s)"

definition admin_create_employee ::
  "(string \<Rightarrow> string) \<Rightarrow> db \<Rightarrow> string \<Rightarrow> string \<Rightarrow> bool \<Rightarrow> error + message list \<times> db" where
  "admin_create_employee sha256 s username password submit_button =
     (if submit_button then
        if username \<noteq> [] \<and> password \<noteq> [] then
          (case insert_users s username (hash_password sha256 password) ''employee'' of
             Inr s' \<Rightarrow>
               Inr ([St_success (''Employee '' @ username @ '' created successfully!'')], s')
           | Inl UniqueViolation \<Rightarrow>
               Inr ([St_error (''Username '' @ username @ '' already exists!'')], s)
           | Inl e \<Rightarrow> Inl e)
        else Inr ([St_warning ''Please fill all fields!''], s)
      else Inr ([], s))"

text \<open>
  \<^verbatim>\<open>admin_manage_employees\<close>. The select box starts empty (\<^verbatim>\<open>index=None\<close>), so its
  value is optional; \<^verbatim>\<open>next(...)\<close> takes the first employee of that name.
\<close>

definition admin_manage_employees ::
  "db \<Rightarrow> string option \<Rightarrow> bool \<Rightarrow> error + message list \<times> db" where
  "admin_manage_employees s selected_employee button =
     (let employees = select_employees s in
      if employees \<noteq> [] then
        (case selected_employee of
           None \<Rightarrow> Inr ([], s)
         | Some selected \<Rightarrow>
             if selected \<noteq> [] \<and> button then
               (case find (\<lambda>e. u_username e = selected) employees of
                  None \<Rightarrow> Inl StopIteration
                | Some e \<Rightarrow>
                    (let employee_id = u_id e;
                         s1 = delete_work_reports s employee_id;
                         s2 = delete_tasks s1 employee_id
                     in case delete_users s2 employee_id of
                          Inl err \<Rightarrow> Inl err
                        | Inr s3 \<Rightarrow>
                            Inr ([St_success
                                   (''Employee '' @ selected @ '' removed successfully!'')], s3)))
             else Inr ([], s))
      else Inr ([St_info ''No employees found.''], s))"

definition admin_view_reports ::
  "db \<Rightarrow> string \<Rightarrow> string \<Rightarrow> date
     \<Rightarrow> error + message list \<times> (string \<times> date \<times> string) list" where
  "admin_view_reports s selected_employee report_period selected_date =
     (if select_employees s = [] then Inr ([St_info ''No employees found.''], [])
      else
        (case admin_reports_query s selected_employee report_period selected_date of
           Inl e \<Rightarrow> Inl e
         | Inr reports \<Rightarrow>
             if reports \<noteq> [] then Inr ([], reports)
             else Inr ([St_info ''No reports found for the selected criteria.''], [])))"

text \<open>\<^verbatim>\<open>FROM tasks t JOIN users u ON t.user_id = u.id\<close>\<close>

definition tasks_join_users :: "db \<Rightarrow> (task \<times> user) list" where
  "tasks_join_users s =
     concat (map (\<lambda>t. map (\<lambda>u. (t, u)) (filter (\<lambda>u. t_user_id t = u_id u) (users s)))
                 (tasks s))"

text \<open>
  The listing under "Existing Tasks" of \<^verbatim>\<open>admin_assign_task\<close>:
  (id, username, task_description, due_date, status) of every task,
  \<^verbatim>\<open>ORDER BY t.due_date ASC\<close>.
\<close>

definition existing_tasks_row :: "task \<times> user \<Rightarrow> int \<times> string \<times> string \<times> date \<times> string" where
  "existing_tasks_row r =
     (case r of (t, u) \<Rightarrow>
        (t_id t, u_username u, t_task_description t, t_due_date t, t_status t))"

definition existing_tasks_query :: "db \<Rightarrow> (int \<times> string \<times> string \<times> date \<times> string) list" where
  "existing_tasks_query s =
     map existing_tasks_row
       (sort_key (\<lambda>(t, u). date_key (t_due_date t)) (tasks_join_users s))"

text \<open>
  \<^verbatim>\<open>admin_assign_task\<close>. The select box has no empty entry, so \<open>selected_employee\<close>
  is a plain string; the listing runs after the insert, on the same connection.
\<close>

definition admin_assign_task ::
  "db \<Rightarrow> string \<Rightarrow> string \<Rightarrow> date \<Rightarrow> bool \<Rightarrow> int
     \<Rightarrow> error + message list \<times> (int \<times> string \<times> string \<times> date \<times> string) list \<times> db" where
  "admin_assign_task s selected_employee task_description due_date submit_button now =
     (let employees = select_employees s in
      if employees = [] then Inr ([St_info ''No employees found.''], [], s)
      else
        (case
           (if submit_button then
              if selected_employee \<noteq> [] \<and> task_description \<noteq> [] then
                (case find (\<lambda>e. u_username e = selected_employee) employees of
                   None \<Rightarrow> Inl StopIteration
                 | Some e \<Rightarrow>
                     (case insert_tasks s (u_id e) task_description due_date now of
                        Inl err \<Rightarrow> Inl err
                      | Inr s' \<Rightarrow>
                          Inr ([St_success (''Task assigned to '' @ selected_employee
                                             @ '' successfully!'')], s')))
              else Inr ([St_warning ''Please fill all fields!''], s)
            else Inr ([], s))
         of
           Inl err \<Rightarrow> Inl err
         | Inr (shown, s') \<Rightarrow>
             (let tasks = existing_tasks_query s' in
              if tasks \<noteq> [] then Inr (shown, tasks, s')
              else Inr (shown @ [St_info ''No tasks found.''], [], s'))))"

text \<open>
  The read-before-write of \<^verbatim>\<open>employee_submit_report\<close> (the spec's \<open>upsert\<close>): the id
  of the first report of that user and date decides between \<^verbatim>\<open>UPDATE\<close> and
  \<^verbatim>\<open>INSERT\<close>; the success message says which.
\<close>

definition upsert :: "db \<Rightarrow> int \<Rightarrow> date \<Rightarrow> string \<Rightarrow> int \<Rightarrow> error + string \<times> db" where
  "upsert s user_id report_date report_content now =
     (case find (\<lambda>wr. wr_user_id wr = user_id \<and> wr_report_date wr = report_date)
                (work_reports s) of
        Some existing_report \<Rightarrow>
          Inr (''Report updated successfully!'',
               update_report_content s report_content (wr_id existing_report))
      | None \<Rightarrow>
          (case insert_work_reports s user_id report_date report_content now of
             Inl e \<Rightarrow> Inl e
           | Inr s' \<Rightarrow> Inr (''Report submitted successfully!'', s')))"

definition employee_submit_report ::
  "db \<Rightarrow> int \<Rightarrow> date \<Rightarrow> string \<Rightarrow> bool \<Rightarrow> int \<Rightarrow> error + message list \<times> db" where
  "employee_submit_report s user_id report_date report_content submit_button now =
     (if submit_button then
        if report_content \<noteq> [] then
          (case upsert s user_id report_date report_content now of
             Inl e \<Rightarrow> Inl e
           | Inr (success_message, s') \<Rightarrow> Inr ([St_success success_message], s'))
        else Inr ([St_warning ''Please enter your work report!''], s)
      else Inr ([], s))"

definition employee_view_reports ::
  "db \<Rightarrow> int \<Rightarrow> string \<Rightarrow> date \<Rightarrow> error + message list \<times> (date \<times> string) list" where
  "employee_view_reports s user_id report_period selected_date =
     (case employee_reports_query s user_id report_period selected_date of
        Inl e \<Rightarrow> Inl e
      | Inr reports \<Rightarrow>
          if reports \<noteq> [] then Inr ([], reports)
          else Inr ([St_info ''No reports found for the selected criteria.''], []))"

text \<open>
  The query of \<^verbatim>\<open>employee_view_tasks\<close>:
  \<^verbatim>\<open>ORDER BY CASE WHEN status = 'pending' THEN 0 ELSE 1 END, due_date ASC\<close>.
  The rows are kept whole; the query leaves out \<^verbatim>\<open>user_id\<close>, which is the
  parameter on every row.
\<close>

definition pending_first :: "task \<Rightarrow> nat \<times> int \<times> int \<times> int" where
  "pending_first t = (if t_status t = ''pending'' then 0 else 1, date_key (t_due_date t))"

definition my_tasks_query :: "db \<Rightarrow> int \<Rightarrow> task list" where
  "my_tasks_query s user_id =
     sort_key pending_first (filter (\<lambda>t. t_user_id t = user_id) (tasks s))"

text \<open>\<^verbatim>\<open>str\<close> of an integer, for the labels of the task select box.\<close>

fun str_nat :: "nat \<Rightarrow> string" where
  "str_nat n =
     (if n < 10 then [''0123456789'' ! n]
      else str_nat (n div 10) @ [''0123456789'' ! (n mod 10)])"

declare str_nat.simps [simp del]

definition str_int :: "int \<Rightarrow> string" where
  "str_int i = (if i < 0 then CHR ''-'' # str_nat (nat (- i)) else str_nat (nat i))"

definition task_label :: "task \<Rightarrow> string" where
  "task_label t = str_int (t_id t) @ '': '' @ take 30 (t_task_description t) @ ''...''"

text \<open>
  \<^verbatim>\<open>employee_view_tasks\<close>. \<^verbatim>\<open>task_options\<close> is a dict from label to id (a later
  task of the same label replaces an earlier one); the select box starts empty.
\<close>

definition employee_view_tasks ::
  "db \<Rightarrow> int \<Rightarrow> string option \<Rightarrow> bool \<Rightarrow> error + message list \<times> task list \<times> db" where
  "employee_view_tasks s user_id selected_task_display button =
     (let tasks = my_tasks_query s user_id in
      if tasks \<noteq> [] then
        (let pending_tasks = filter (\<lambda>t. t_status t = ''pending'') tasks in
         if pending_tasks \<noteq> [] then
           (let task_options = map_of (rev (map (\<lambda>t. (task_label t, t_id t)) pending_tasks)) in
            case selected_task_display of
              None \<Rightarrow> Inr ([], tasks, s)
            | Some selected \<Rightarrow>
                if selected \<noteq> [] \<and> button then
                  (case task_options selected of
                     None \<Rightarrow> Inl KeyError
                   | Some selected_task_id \<Rightarrow>
                       Inr ([St_success ''Task marked as complete!''], tasks,
                            complete s selected_task_id))
                else Inr ([], tasks, s))
         else Inr ([St_info ''No pending tasks found.''], tasks, s))
      else Inr ([St_info ''No tasks assigned to you.''], [], s))"

section \<open>The script\<close>

text \<open>
  Streamlit runs \<^verbatim>\<open>main\<close> from the top at every interaction, and one interaction
  fires one control. An event is the control that fired with the values of the
  widgets it reads; \<open>Refresh\<close> is a run in which no submitting control fired
  (a tab opened, a filter changed), where every page only reads. What a run shows
  is modelled by its \<^verbatim>\<open>st.success\<close>, \<^verbatim>\<open>st.warning\<close>, \<^verbatim>\<open>st.error\<close> and
  \<^verbatim>\<open>st.info\<close> calls; titles, tables and static text are left out.
  \<^verbatim>\<open>st.session_state\<close> holds the one key \<^verbatim>\<open>user\<close>: \<open>None\<close> is the state without
  the key (a new connection), \<open>Some v\<close> the state where the key holds \<open>v\<close>.
\<close>

datatype event =
    Login string string
  | Logout
  | Create_Employee string string
  | Remove_Employee "string option"
  | Assign_Task string string date
  | Submit_Report date string
  | Mark_Complete "string option"
  | Refresh

type_synonym session_state = "user option option"

definition new_connection :: session_state where
  "new_connection = None"

text \<open>
  The user that \<^verbatim>\<open>st.session_state.user\<close> holds once the first lines of \<^verbatim>\<open>main\<close>
  have set a missing key to \<^verbatim>\<open>None\<close>: \<open>None\<close> is the anonymous state, \<open>Some u\<close> the
  state authenticated as \<open>u\<close>.
\<close>

definition session_user :: "session_state \<Rightarrow> user option" where
  "session_user session_state = (case session_state of None \<Rightarrow> None | Some v \<Rightarrow> v)"

text \<open>
  How far a run has come: still running (at the end: it ran to the last line),
  stopped by \<^verbatim>\<open>st.rerun()\<close>, or stopped by an exception that no handler caught.
\<close>

datatype flow = Running | Rerun | Raised error

text \<open>
  The filter widgets of the two report views, which every run of a dashboard
  reads: the employee select box (admin only), the period and the date.
\<close>

record view_widgets =
  view_employee :: string
  view_period :: string
  view_date :: date

text \<open>
  The script calls one page function after the other. \<open>then_page\<close> runs the next
  one on the database that the run has reached, unless the run has stopped; a
  statement committed by an earlier page stays committed when a later one raises.
  \<open>then_page_rerun\<close> is the same for the two pages that call \<^verbatim>\<open>st.rerun()\<close>
  right after their \<^verbatim>\<open>st.success\<close> (and nowhere else).
\<close>

definition then_page ::
  "message list \<times> flow \<times> db \<Rightarrow> (db \<Rightarrow> error + message list \<times> db)
     \<Rightarrow> message list \<times> flow \<times> db" where
  "then_page r page =
     (case r of
        (shown, Running, s) \<Rightarrow>
          (case page s of
             Inl e \<Rightarrow> (shown, Raised e, s)
           | Inr (added, s') \<Rightarrow> (shown @ added, Running, s'))
      | _ \<Rightarrow> r)"

fun is_success :: "message \<Rightarrow> bool" where
  "is_success (St_success text) = True"
| "is_success _ = False"

definition then_page_rerun ::
  "message list \<times> flow \<times> db \<Rightarrow> (db \<Rightarrow> error + message list \<times> db)
     \<Rightarrow> message list \<times> flow \<times> db" where
  "then_page_rerun r page =
     (case r of
        (shown, Running, s) \<Rightarrow>
          (case page s of
             Inl e \<Rightarrow> (shown, Raised e, s)
           | Inr (added, s') \<Rightarrow>
               (shown @ added, if list_ex is_success added then Rerun else Running, s'))
      | _ \<Rightarrow> r)"

text \<open>A page that only reads, and a page whose table is not a message.\<close>

definition reading :: "db \<Rightarrow> error + message list \<times> 'r \<Rightarrow> error + message list \<times> db" where
  "reading s r = (case r of Inl e \<Rightarrow> Inl e | Inr (shown, table) \<Rightarrow> Inr (shown, s))"

definition without_table :: "error + message list \<times> 'r \<times> db \<Rightarrow> error + message list \<times> db" where
  "without_table r =
     (case r of Inl e \<Rightarrow> Inl e | Inr (shown, table, s') \<Rightarrow> Inr (shown, s'))"

text \<open>
  The tabs of the two dashboards on an event. The form or button of a tab fired when
  the event is its own; otherwise the page function runs with its button unpressed,
  and the widgets that it then does not read are given empty values.
\<close>

definition unread_date :: date where
  "unread_date = \<lparr>year = 1, month = 1, day = 1\<rparr>"

definition create_employee_tab ::
  "(string \<Rightarrow> string) \<Rightarrow> event \<Rightarrow> db \<Rightarrow> error + message list \<times> db" where
  "create_employee_tab sha256 ev s =
     (case ev of
        Create_Employee username password \<Rightarrow>
          admin_create_employee sha256 s username password True
      | _ \<Rightarrow> admin_create_employee sha256 s [] [] False)"

definition manage_employees_tab :: "event \<Rightarrow> db \<Rightarrow> error + message list \<times> db" where
  "manage_employees_tab ev s =
     (case ev of
        Remove_Employee selected_employee \<Rightarrow> admin_manage_employees s selected_employee True
      | _ \<Rightarrow> admin_manage_employees s None False)"

definition view_reports_tab :: "view_widgets \<Rightarrow> db \<Rightarrow> error + message list \<times> db" where
  "view_reports_tab w s =
     reading s (admin_view_reports s (view_employee w) (view_period w) (view_date w))"

definition assign_task_tab :: "int \<Rightarrow> event \<Rightarrow> db \<Rightarrow> error + message list \<times> db" where
  "assign_task_tab now ev s =
     without_table
       (case ev of
          Assign_Task selected_employee task_description due_date \<Rightarrow>
            admin_assign_task s selected_employee task_description due_date True now
        | _ \<Rightarrow> admin_assign_task s [] [] unread_date False now)"

definition submit_report_tab :: "int \<Rightarrow> int \<Rightarrow> event \<Rightarrow> db \<Rightarrow> error + message list \<times> db" where
  "submit_report_tab now user_id ev s =
     (case ev of
        Submit_Report report_date report_content \<Rightarrow>
          employee_submit_report s user_id report_date report_content True now
      | _ \<Rightarrow> employee_submit_report s user_id unread_date [] False now)"

definition my_reports_tab :: "int \<Rightarrow> view_widgets \<Rightarrow> db \<Rightarrow> error + message list \<times> db" where
  "my_reports_tab user_id w s =
     reading s (employee_view_reports s user_id (view_period w) (view_date w))"

definition my_tasks_tab :: "int \<Rightarrow> event \<Rightarrow> db \<Rightarrow> error + message list \<times> db" where
  "my_tasks_tab user_id ev s =
     without_table
       (case ev of
          Mark_Complete selected_task_display \<Rightarrow>
            employee_view_tasks s user_id selected_task_display True
        | _ \<Rightarrow> employee_view_tasks s user_id None False)"

text \<open>
  The admin dashboard renders its four tabs in order, the employee dashboard its
  three; each is a run of its own page functions from the database after the
  bootstrap.
\<close>

definition admin_dashboard ::
  "(string \<Rightarrow> string) \<Rightarrow> int \<Rightarrow> view_widgets \<Rightarrow> event \<Rightarrow> db
     \<Rightarrow> message list \<times> flow \<times> db" where
  "admin_dashboard sha256 now w ev s0 =
     then_page
       (then_page
          (then_page_rerun
             (then_page ([], Running, s0) (create_employee_tab sha256 ev))
             (manage_employees_tab ev))
          (view_reports_tab w))
       (assign_task_tab now ev)"

definition employee_dashboard ::
  "int \<Rightarrow> view_widgets \<Rightarrow> event \<Rightarrow> int \<Rightarrow> db \<Rightarrow> message list \<times> flow \<times> db" where
  "employee_dashboard now w ev user_id s0 =
     then_page_rerun
       (then_page
          (then_page ([], Running, s0) (submit_report_tab now user_id ev))
          (my_reports_tab user_id w))
       (my_tasks_tab user_id ev)"

text \<open>
  \<^verbatim>\<open>main\<close>: bootstrap, the sidebar (logout button or login form), then the
  dashboard of the role, or for an anonymous session the landing page with its
  \<^verbatim>\<open>st.info\<close>. A successful login and the logout call \<^verbatim>\<open>st.rerun()\<close>, which ends
  the run before any main content. A control that the current page does not
  render cannot fire; the model treats such an event as a run without input. The
  result is the messages shown with the way the run ended, the session state and
  the database.
\<close>

definition main ::
  "(string \<Rightarrow> string) \<Rightarrow> int \<Rightarrow> view_widgets \<Rightarrow> event \<Rightarrow> session_state \<times> db
     \<Rightarrow> (message list \<times> flow) \<times> session_state \<times> db" where
  "main sha256 now w ev st =
     (case st of (session_state, s) \<Rightarrow>
        (case init_db sha256 s of
           Inl e \<Rightarrow> (([], Raised e), session_state, s)
         | Inr s0 \<Rightarrow>
             (case session_user session_state of
                Some user \<Rightarrow>
                  if ev = Logout then (([], Rerun), Some None, s0)
                  else
                    (case (if u_role user = ''admin''
                           then admin_dashboard sha256 now w ev s0
                           else employee_dashboard now w ev (u_id user) s0) of
                       (shown, ended, s') \<Rightarrow> ((shown, ended), Some (Some user), s'))
              | None \<Rightarrow>
                  (case ev of
                     Login username password \<Rightarrow>
                       (case authenticate sha256 s0 username password of
                          Some user \<Rightarrow> (([], Rerun), Some (Some user), s0)
                        | None \<Rightarrow>
                            (([St_error ''Invalid username or password'',
                               St_info ''Please login to access the system.''], Running),
                             Some None, s0))
                   | _ \<Rightarrow>
                       (([St_info ''Please login to access the system.''], Running),
                        Some None, s0)))))"

section \<open>Integrity of a database\<close>

text \<open>
  What the schema enforces on every state: \<^verbatim>\<open>PRIMARY KEY\<close> ids are distinct and were
  drawn from the sequences, \<^verbatim>\<open>username\<close> is \<^verbatim>\<open>UNIQUE\<close>, and every \<^verbatim>\<open>user_id\<close>
  refers to a user.
\<close>

definition schema_ok :: "db \<Rightarrow> bool" where
  "schema_ok s \<longleftrightarrow>
     distinct (map u_id (users s)) \<and> list_all (\<lambda>u. u_id u < users_id_seq s) (users s) \<and>
     distinct (map u_username (users s)) \<and>
     distinct (map wr_id (work_reports s)) \<and>
     list_all (\<lambda>wr. wr_id wr < work_reports_id_seq s) (work_reports s) \<and>
     distinct (map t_id (tasks s)) \<and> list_all (\<lambda>t. t_id t < tasks_id_seq s) (tasks s) \<and>
     list_all (\<lambda>wr. wr_user_id wr \<in> u_id ` set (users s)) (work_reports s) \<and>
     list_all (\<lambda>t. t_user_id t \<in> u_id ` set (users s)) (tasks s)"

text \<open>
  What the read-before-write of the report form maintains: one report at most for a
  user and a date.
\<close>

definition one_report_per_day :: "db \<Rightarrow> bool" where
  "one_report_per_day s \<longleftrightarrow>
     distinct (map (\<lambda>wr. (wr_user_id wr, wr_report_date wr)) (work_reports s))"

text \<open>The accounts whose role is \<^verbatim>\<open>admin\<close>, and the state in which the seeded one stands alone.\<close>

definition admins :: "db \<Rightarrow> user list" where
  "admins s = filter (\<lambda>u. u_role u = ''admin'') (users s)"

definition only_seeded_admin :: "db \<Rightarrow> bool" where
  "only_seeded_admin s \<longleftrightarrow> (case admins s of [a] \<Rightarrow> u_username a = ''admin'' | _ \<Rightarrow> False)"

text \<open>
  The databases that the program can produce: the bootstrap of an empty database,
  then any number of runs of \<^verbatim>\<open>main\<close>, each from any session on any event.
\<close>

inductive reachable :: "(string \<Rightarrow> string) \<Rightarrow> db \<Rightarrow> bool" for sha256 where
  boot: "init_db sha256 empty_db = Inr s0 \<Longrightarrow> reachable sha256 s0"
| run: "reachable sha256 s \<Longrightarrow> main sha256 now w ev (session, s) = (out, session', s')
         \<Longrightarrow> reachable sha256 s'"

section \<open>A sample state\<close>

text \<open>
  A small database for the worked instances below: the admin and two employees,
  three reports and three tasks. \<open>sample_digest\<close> stands in for the digest there.
\<close>

definition sample_digest :: "string \<Rightarrow> string" where
  "sample_digest password = rev password"

definition admin_row :: user where
  "admin_row = \<lparr>u_id = 1, u_username = ''admin'', u_password = sample_digest ''admin123'',
                 u_role = ''admin''\<rparr>"

definition alice :: user where
  "alice = \<lparr>u_id = 2, u_username = ''alice'', u_password = sample_digest ''wonder'',
             u_role = ''employee''\<rparr>"

definition bob :: user where
  "bob = \<lparr>u_id = 3, u_username = ''bob'', u_password = sample_digest ''builder'',
           u_role = ''employee''\<rparr>"

definition audit :: task where
  "audit = \<lparr>t_id = 1, t_user_id = 2, t_task_description = ''audit'',
             t_due_date = \<lparr>year = 2024, month = 3, day = 5\<rparr>, t_status = ''completed'',
             t_created_at = 50\<rparr>"

definition deploy :: task where
  "deploy = \<lparr>t_id = 2, t_user_id = 2, t_task_description = ''deploy'',
              t_due_date = \<lparr>year = 2024, month = 3, day = 20\<rparr>, t_status = ''pending'',
              t_created_at = 60\<rparr>"

definition backup :: task where
  "backup = \<lparr>t_id = 3, t_user_id = 2, t_task_description = ''backup'',
              t_due_date = \<lparr>year = 2024, month = 3, day = 10\<rparr>, t_status = ''pending'',
              t_created_at = 70\<rparr>"

definition sample_view :: view_widgets where
  "sample_view = \<lparr>view_employee = ''All Employees'', view_period = ''Monthly'',
                   view_date = \<lparr>year = 2024, month = 3, day = 1\<rparr>\<rparr>"

definition sample_db :: db where
  "sample_db =
     \<lparr>users = [admin_row, alice, bob],
      work_reports =
        [\<lparr>wr_id = 1, wr_user_id = 2, wr_report_date = \<lparr>year = 2024, month = 3, day = 11\<rparr>,
          wr_report_content = ''plan'', wr_created_at = 100\<rparr>,
         \<lparr>wr_id = 2, wr_user_id = 3, wr_report_date = \<lparr>year = 2024, month = 3, day = 15\<rparr>,
          wr_report_content = ''review'', wr_created_at = 200\<rparr>,
         \<lparr>wr_id = 3, wr_user_id = 2, wr_report_date = \<lparr>year = 2024, month = 3, day = 18\<rparr>,
          wr_report_content = ''ship'', wr_created_at = 300\<rparr>],
      tasks = [audit, deploy, backup],
      users_id_seq = 4, work_reports_id_seq = 4, tasks_id_seq = 4\<rparr>"

lemmas sample_defs =
  sample_db_def admin_row_def alice_def bob_def audit_def deploy_def backup_def

section \<open>Lists\<close>

lemma filter_none: "(\<forall>x\<in>set xs. \<not> P x) \<Longrightarrow> filter P xs = []"
  by (induction xs) auto

lemma find_None_filter: "find P xs = None \<Longrightarrow> filter P xs = []"
  by (induction xs) (auto split: if_splits)

lemma find_Some_mem: "find P xs = Some x \<Longrightarrow> x \<in> set xs \<and> P x"
  by (induction xs) (auto split: if_splits)

lemma find_append_None: "find P xs = None \<Longrightarrow> find P (xs @ ys) = find P ys"
  by (induction xs) (auto split: if_splits)

lemma find_filter_distinct:
  assumes "distinct (map k xs)" and "find (\<lambda>x. k x = v) xs = Some r"
  shows "filter (\<lambda>x. k x = v) xs = [r]"
  using assms
proof (induction xs)
  case Nil
  then show ?case by simp
next
  case (Cons x xs)
  show ?case
  proof (cases "k x = v")
    case True
    with Cons.prems have "r = x" by simp
    moreover from True Cons.prems have "filter (\<lambda>y. k y = v) xs = []"
      by (auto simp: filter_empty_conv image_iff)
    ultimately show ?thesis using True by simp
  next
    case False
    with Cons show ?thesis by simp
  qed
qed

section \<open>The sample state keeps the invariants\<close>

lemma schema_ok_sample_db: "schema_ok sample_db"
  by (simp add: schema_ok_def sample_defs)

lemma one_report_per_day_sample_db: "one_report_per_day sample_db"
  by (simp add: one_report_per_day_def sample_defs)

section \<open>The calendar\<close>

text \<open>
  The day after a valid date is a valid date (while the year stays within 9999)
  and a later one in the order of the comparison.
\<close>

lemma valid_date_next_day:
  assumes "valid_date d" and "year (next_day d) \<le> 9999"
  shows "valid_date (next_day d)"
  using assms
  by (auto simp: valid_date_def next_day_def days_in_month_def split: if_splits)

lemma date_le_next_day:
  assumes "valid_date d"
  shows "date_key d < date_key (next_day d)"
  using assms
  by (auto simp: valid_date_def next_day_def date_key_def split: if_splits)

text \<open>
  The periods of the specification's examples. The week that starts on Monday
  11 March 2024 runs to the 17th; a week anchored at Friday 15 March runs from the
  15th to the 21st, since the query takes the anchor as it is.
\<close>

lemma week_of_11_March_2024:
  "date_add_days \<lparr>year = 2024, month = 3, day = 11\<rparr> 6 = Inr \<lparr>year = 2024, month = 3, day = 17\<rparr>"
  by (simp add: date_add_days_def numeral_eq_Suc next_day_def days_in_month_def is_leap_def)

lemma period_examples:
  "resolve Weekly \<lparr>year = 2024, month = 3, day = 11\<rparr> \<lparr>year = 2024, month = 3, day = 11\<rparr>"
  "resolve Weekly \<lparr>year = 2024, month = 3, day = 11\<rparr> \<lparr>year = 2024, month = 3, day = 17\<rparr>"
  "\<not> resolve Weekly \<lparr>year = 2024, month = 3, day = 11\<rparr> \<lparr>year = 2024, month = 3, day = 10\<rparr>"
  "\<not> resolve Weekly \<lparr>year = 2024, month = 3, day = 11\<rparr> \<lparr>year = 2024, month = 3, day = 18\<rparr>"
  "resolve Monthly \<lparr>year = 2024, month = 3, day = 15\<rparr> \<lparr>year = 2024, month = 3, day = 1\<rparr>"
  "resolve Monthly \<lparr>year = 2024, month = 3, day = 15\<rparr> \<lparr>year = 2024, month = 3, day = 31\<rparr>"
  "\<not> resolve Monthly \<lparr>year = 2024, month = 3, day = 15\<rparr> \<lparr>year = 2024, month = 2, day = 29\<rparr>"
  "\<not> resolve Monthly \<lparr>year = 2024, month = 3, day = 15\<rparr> \<lparr>year = 2024, month = 4, day = 1\<rparr>"
  "resolve Yearly \<lparr>year = 2024, month = 3, day = 15\<rparr> \<lparr>year = 2024, month = 12, day = 31\<rparr>"
  "\<not> resolve Yearly \<lparr>year = 2024, month = 3, day = 15\<rparr> \<lparr>year = 2023, month = 12, day = 31\<rparr>"
  "\<not> resolve Yearly \<lparr>year = 2024, month = 3, day = 15\<rparr> \<lparr>year = 2025, month = 1, day = 1\<rparr>"
  by (simp_all add: week_of_11_March_2024 date_le_def date_key_def)

lemma week_of_15_March_2024:
  "date_add_days \<lparr>year = 2024, month = 3, day = 15\<rparr> 6 = Inr \<lparr>year = 2024, month = 3, day = 21\<rparr>"
  "\<not> resolve Weekly \<lparr>year = 2024, month = 3, day = 15\<rparr> \<lparr>year = 2024, month = 3, day = 11\<rparr>"
  "resolve Weekly \<lparr>year = 2024, month = 3, day = 15\<rparr> \<lparr>year = 2024, month = 3, day = 21\<rparr>"
  by (simp_all add: date_add_days_def numeral_eq_Suc next_day_def days_in_month_def is_leap_def date_le_def date_key_def)

section \<open>Filtered report reads\<close>

lemma period_clause_resolve:
  assumes "p = Weekly \<longrightarrow> (\<exists>w. date_add_days a 6 = Inr w)"
  shows "period_clause (period_label p) a = Inr (resolve p a)"
  using assms by (cases p) (auto simp: period_clause_def fun_eq_iff)

lemma sorted_order_by_report_date_desc:
  "sorted_wrt (\<lambda>x y. date_le (col y) (col x)) (order_by_report_date_desc col rows)"
proof -
  have "sorted (map (\<lambda>r. date_key (col r)) (sort_key (\<lambda>r. date_key (col r)) rows))"
    by (rule sorted_sort_key)
  then have "sorted_wrt (\<lambda>x y. date_key (col x) \<le> date_key (col y))
               (sort_key (\<lambda>r. date_key (col r)) rows)"
    by (simp add: sorted_map)
  then show ?thesis
    by (simp add: order_by_report_date_desc_def sorted_wrt_rev date_le_def)
qed

lemma mset_order_by_report_date_desc [simp]:
  "mset (order_by_report_date_desc col rows) = mset rows"
  by (simp add: order_by_report_date_desc_def)

lemma order_by_report_date_desc_Nil [simp]: "order_by_report_date_desc col [] = []"
  by (simp add: order_by_report_date_desc_def)

text \<open>
  On a database that keeps the schema's constraints every report has exactly one
  owner among the users, so the join lists each report once, beside its owner.
\<close>

lemma concat_map_singleton:
  assumes "\<forall>x\<in>set xs. f x = [g x]"
  shows "concat (map f xs) = map g xs"
  using assms by (induction xs) auto

lemma map_filter_map:
  "map f (filter P (map g xs)) = map (\<lambda>x. f (g x)) (filter (\<lambda>x. P (g x)) xs)"
  by (induction xs) simp_all

lemma work_reports_join_users_owner:
  assumes "schema_ok s"
  shows "work_reports_join_users s =
           map (\<lambda>wr. (wr, the (find (\<lambda>u. u_id u = wr_user_id wr) (users s)))) (work_reports s)"
    and "\<forall>wr\<in>set (work_reports s).
           the (find (\<lambda>u. u_id u = wr_user_id wr) (users s)) \<in> set (users s) \<and>
           u_id (the (find (\<lambda>u. u_id u = wr_user_id wr) (users s))) = wr_user_id wr"
proof -
  from assms have dist: "distinct (map u_id (users s))"
    and ref: "\<forall>wr\<in>set (work_reports s). wr_user_id wr \<in> u_id ` set (users s)"
    by (simp_all add: schema_ok_def list_all_iff)
  have one: "\<exists>u. find (\<lambda>u. u_id u = wr_user_id wr) (users s) = Some u \<and>
               filter (\<lambda>u. wr_user_id wr = u_id u) (users s) = [u]"
    if "wr \<in> set (work_reports s)" for wr
  proof -
    from ref that obtain u0 where "u0 \<in> set (users s)" and "u_id u0 = wr_user_id wr"
      by (auto simp: image_iff)
    then have "find (\<lambda>u. u_id u = wr_user_id wr) (users s) \<noteq> None"
      by (auto simp: find_None_iff)
    then obtain u where u: "find (\<lambda>u. u_id u = wr_user_id wr) (users s) = Some u"
      by auto
    from find_filter_distinct [OF dist u]
    have "filter (\<lambda>u. wr_user_id wr = u_id u) (users s) = [u]"
      by (simp add: eq_commute)
    with u show ?thesis by blast
  qed
  then have "\<forall>wr\<in>set (work_reports s).
      map (\<lambda>u. (wr, u)) (filter (\<lambda>u. wr_user_id wr = u_id u) (users s))
        = [(wr, the (find (\<lambda>u. u_id u = wr_user_id wr) (users s)))]"
    by fastforce
  then show "work_reports_join_users s =
           map (\<lambda>wr. (wr, the (find (\<lambda>u. u_id u = wr_user_id wr) (users s)))) (work_reports s)"
    unfolding work_reports_join_users_def by (rule concat_map_singleton)
  show "\<forall>wr\<in>set (work_reports s).
           the (find (\<lambda>u. u_id u = wr_user_id wr) (users s)) \<in> set (users s) \<and>
           u_id (the (find (\<lambda>u. u_id u = wr_user_id wr) (users s))) = wr_user_id wr"
  proof
    fix wr assume "wr \<in> set (work_reports s)"
    from one [OF this] obtain u where u: "find (\<lambda>u. u_id u = wr_user_id wr) (users s) = Some u"
      by blast
    from find_Some_mem [OF u] u
    show "the (find (\<lambda>u. u_id u = wr_user_id wr) (users s)) \<in> set (users s) \<and>
           u_id (the (find (\<lambda>u. u_id u = wr_user_id wr) (users s))) = wr_user_id wr"
      by simp
  qed
qed

lemma admin_rows_of_work_reports:
  assumes "schema_ok s" and "p = Weekly \<longrightarrow> (\<exists>w. date_add_days a 6 = Inr w)"
  shows "\<exists>owner everyone.
     (\<forall>wr\<in>set (work_reports s). owner wr \<in> set (users s) \<and> u_id (owner wr) = wr_user_id wr) \<and>
     admin_reports_query s sel (period_label p) a = Inr everyone \<and>
     mset everyone =
       mset (map (\<lambda>wr. (u_username (owner wr), wr_report_date wr, wr_report_content wr))
              (filter (\<lambda>wr. (sel \<noteq> ''All Employees'' \<longrightarrow> u_username (owner wr) = sel)
                            \<and> resolve p a (wr_report_date wr))
                 (work_reports s)))"
proof -
  let ?owner = "\<lambda>wr. the (find (\<lambda>u. u_id u = wr_user_id wr) (users s))"
  let ?row = "\<lambda>(wr, u). (u_username u, wr_report_date wr, wr_report_content wr)"
  let ?cond = "\<lambda>(wr, u). (sel \<noteq> ''All Employees'' \<longrightarrow> u_username u = sel)
                          \<and> resolve p a (wr_report_date wr)"
  note j = work_reports_join_users_owner [OF assms(1)]
  have q: "admin_reports_query s sel (period_label p) a =
      Inr (map ?row (order_by_report_date_desc (\<lambda>(wr, u). wr_report_date wr)
                (filter ?cond (map (\<lambda>wr. (wr, ?owner wr)) (work_reports s)))))"
    by (simp add: admin_reports_query_def period_clause_resolve [OF assms(2)] j(1))
  have m: "mset (map ?row (order_by_report_date_desc (\<lambda>(wr, u). wr_report_date wr)
                (filter ?cond (map (\<lambda>wr. (wr, ?owner wr)) (work_reports s))))) =
       mset (map (\<lambda>wr. (u_username (?owner wr), wr_report_date wr, wr_report_content wr))
              (filter (\<lambda>wr. (sel \<noteq> ''All Employees'' \<longrightarrow> u_username (?owner wr) = sel)
                            \<and> resolve p a (wr_report_date wr))
                 (work_reports s)))"
  proof -
    have "mset (map ?row (order_by_report_date_desc (\<lambda>(wr, u). wr_report_date wr)
                (filter ?cond (map (\<lambda>wr. (wr, ?owner wr)) (work_reports s))))) =
          mset (map ?row (filter ?cond (map (\<lambda>wr. (wr, ?owner wr)) (work_reports s))))"
      by simp
    also have "map ?row (filter ?cond (map (\<lambda>wr. (wr, ?owner wr)) (work_reports s))) =
       map (\<lambda>wr. (u_username (?owner wr), wr_report_date wr, wr_report_content wr))
              (filter (\<lambda>wr. (sel \<noteq> ''All Employees'' \<longrightarrow> u_username (?owner wr) = sel)
                            \<and> resolve p a (wr_report_date wr))
                 (work_reports s))"
      using map_filter_map [of ?row ?cond "\<lambda>wr. (wr, ?owner wr)" "work_reports s"]
      by simp
    finally show ?thesis .
  qed
  show ?thesis
    by (rule exI [of _ ?owner], rule exI, intro conjI) (rule j(2), rule q, rule m)
qed

text \<open>The pages display what the queries return.\<close>

lemma employee_view_reports_rows:
  "employee_view_reports s u p a = Inr (shown, rows) \<Longrightarrow> employee_reports_query s u p a = Inr rows"
  by (auto simp: employee_view_reports_def split: sum.splits if_splits)

lemma admin_view_reports_rows:
  "select_employees s \<noteq> [] \<Longrightarrow> admin_view_reports s sel p a = Inr (shown, rows)
     \<Longrightarrow> admin_reports_query s sel p a = Inr rows"
  by (auto simp: admin_view_reports_def split: sum.splits if_splits)

text \<open>A week that would end after 9999-12-31 is an error of the date arithmetic.\<close>

lemma overflow_last_week:
  "date_add_days \<lparr>year = 9999, month = 12, day = 26\<rparr> 6 = Inl OverflowError"
  "employee_reports_query s u ''Weekly'' \<lparr>year = 9999, month = 12, day = 26\<rparr> = Inl OverflowError"
  by (simp_all add: employee_reports_query_def period_clause_def date_add_days_def numeral_eq_Suc next_day_def days_in_month_def is_leap_def)

text \<open>
  C1. For each period kind and anchor date (for a week: an anchor whose sixth day
  after exists as a date), both report queries succeed and return exactly the rows
  of their user filter whose report date satisfies the predicate that the
  specification gives for the period: the same date; the closed range from the
  anchor to six days later; the anchor's year and month; the anchor's year. The
  rows come newest first, and when no row matches the result is the empty list,
  not an error. The employee's rows are those of the stored reports of that user;
  the admin's rows are those of the join, and on a database that keeps the schema's
  constraints they are those of the stored reports themselves, one row for each
  matching report, with the username of the user that owns it.
\<close>

theorem filtered_reports_exact:
  assumes "p = Weekly \<longrightarrow> (\<exists>w. date_add_days a 6 = Inr w)"
  shows "\<exists>mine everyone.
     employee_reports_query s uid (period_label p) a = Inr mine \<and>
     mset mine = mset (map (\<lambda>wr. (wr_report_date wr, wr_report_content wr))
                      (filter (\<lambda>wr. wr_user_id wr = uid \<and> resolve p a (wr_report_date wr))
                         (work_reports s))) \<and>
     sorted_wrt (\<lambda>x y. date_le (fst y) (fst x)) mine \<and>
     ((\<forall>wr\<in>set (work_reports s). wr_user_id wr = uid \<longrightarrow> \<not> resolve p a (wr_report_date wr))
        \<longrightarrow> mine = []) \<and>
     admin_reports_query s sel (period_label p) a = Inr everyone \<and>
     mset everyone =
       mset (map (\<lambda>(wr, u). (u_username u, wr_report_date wr, wr_report_content wr))
              (filter (\<lambda>(wr, u). (sel \<noteq> ''All Employees'' \<longrightarrow> u_username u = sel)
                                  \<and> resolve p a (wr_report_date wr))
                 (work_reports_join_users s))) \<and>
     sorted_wrt (\<lambda>x y. date_le (fst (snd y)) (fst (snd x))) everyone \<and>
     ((\<forall>(wr, u)\<in>set (work_reports_join_users s).
          (sel \<noteq> ''All Employees'' \<longrightarrow> u_username u = sel)
            \<longrightarrow> \<not> resolve p a (wr_report_date wr))
        \<longrightarrow> everyone = []) \<and>
     (schema_ok s \<longrightarrow>
        (\<exists>owner.
           (\<forall>wr\<in>set (work_reports s).
               owner wr \<in> set (users s) \<and> u_id (owner wr) = wr_user_id wr) \<and>
           mset everyone =
             mset (map (\<lambda>wr. (u_username (owner wr), wr_report_date wr, wr_report_content wr))
                    (filter (\<lambda>wr. (sel \<noteq> ''All Employees'' \<longrightarrow> u_username (owner wr) = sel)
                                  \<and> resolve p a (wr_report_date wr))
                       (work_reports s)))))"
proof -
  note pc = period_clause_resolve [OF assms]
  let ?mine = "filter (\<lambda>wr. wr_user_id wr = uid \<and> resolve p a (wr_report_date wr))
                 (work_reports s)"
  let ?all = "filter (\<lambda>(wr, u). (sel \<noteq> ''All Employees'' \<longrightarrow> u_username u = sel)
                                 \<and> resolve p a (wr_report_date wr))
                (work_reports_join_users s)"
  let ?erow = "\<lambda>wr. (wr_report_date wr, wr_report_content wr)"
  let ?arow = "\<lambda>(wr, u). (u_username u, wr_report_date wr, wr_report_content wr)"
  have e1: "employee_reports_query s uid (period_label p) a =
      Inr (map ?erow (order_by_report_date_desc wr_report_date ?mine))"
    by (simp add: employee_reports_query_def pc)
  have e2: "mset (map ?erow (order_by_report_date_desc wr_report_date ?mine)) =
            mset (map ?erow ?mine)"
    by simp
  have e3: "sorted_wrt (\<lambda>x y. date_le (fst y) (fst x))
              (map ?erow (order_by_report_date_desc wr_report_date ?mine))"
    using sorted_order_by_report_date_desc [of wr_report_date ?mine]
    by (simp add: sorted_wrt_map)
  have "(\<forall>wr\<in>set (work_reports s). wr_user_id wr = uid \<longrightarrow> \<not> resolve p a (wr_report_date wr))
        \<longrightarrow> ?mine = []"
    by (auto intro: filter_none)
  then have e4:
    "(\<forall>wr\<in>set (work_reports s). wr_user_id wr = uid \<longrightarrow> \<not> resolve p a (wr_report_date wr))
        \<longrightarrow> map ?erow (order_by_report_date_desc wr_report_date ?mine) = []"
    by auto
  have a1: "admin_reports_query s sel (period_label p) a =
      Inr (map ?arow (order_by_report_date_desc (\<lambda>(wr, u). wr_report_date wr) ?all))"
    by (simp add: admin_reports_query_def pc)
  have a2: "mset (map ?arow (order_by_report_date_desc (\<lambda>(wr, u). wr_report_date wr) ?all)) =
            mset (map ?arow ?all)"
    by simp
  have a3: "sorted_wrt (\<lambda>x y. date_le (fst (snd y)) (fst (snd x)))
              (map ?arow (order_by_report_date_desc (\<lambda>(wr, u). wr_report_date wr) ?all))"
    using sorted_order_by_report_date_desc [of "\<lambda>(wr, u). wr_report_date wr" ?all]
    by (simp add: sorted_wrt_map case_prod_unfold)
  have "(\<forall>(wr, u)\<in>set (work_reports_join_users s).
          (sel \<noteq> ''All Employees'' \<longrightarrow> u_username u = sel)
            \<longrightarrow> \<not> resolve p a (wr_report_date wr))
        \<longrightarrow> ?all = []"
    by (auto intro!: filter_none)
  then have a4:
    "(\<forall>(wr, u)\<in>set (work_reports_join_users s).
          (sel \<noteq> ''All Employees'' \<longrightarrow> u_username u = sel)
            \<longrightarrow> \<not> resolve p a (wr_report_date wr))
        \<longrightarrow> map ?arow (order_by_report_date_desc (\<lambda>(wr, u). wr_report_date wr) ?all) = []"
    by auto
  have a5: "schema_ok s \<longrightarrow>
        (\<exists>owner.
           (\<forall>wr\<in>set (work_reports s).
               owner wr \<in> set (users s) \<and> u_id (owner wr) = wr_user_id wr) \<and>
           mset (map ?arow (order_by_report_date_desc (\<lambda>(wr, u). wr_report_date wr) ?all)) =
             mset (map (\<lambda>wr. (u_username (owner wr), wr_report_date wr, wr_report_content wr))
                    (filter (\<lambda>wr. (sel \<noteq> ''All Employees'' \<longrightarrow> u_username (owner wr) = sel)
                                  \<and> resolve p a (wr_report_date wr))
                       (work_reports s))))"
  proof
    assume "schema_ok s"
    from admin_rows_of_work_reports [OF this assms, of sel] a1
    show "\<exists>owner.
           (\<forall>wr\<in>set (work_reports s).
               owner wr \<in> set (users s) \<and> u_id (owner wr) = wr_user_id wr) \<and>
           mset (map ?arow (order_by_report_date_desc (\<lambda>(wr, u). wr_report_date wr) ?all)) =
             mset (map (\<lambda>wr. (u_username (owner wr), wr_report_date wr, wr_report_content wr))
                    (filter (\<lambda>wr. (sel \<noteq> ''All Employees'' \<longrightarrow> u_username (owner wr) = sel)
                                  \<and> resolve p a (wr_report_date wr))
                       (work_reports s)))"
      by auto
  qed
  from e1 e2 e3 e4 a1 a2 a3 a4 a5 show ?thesis by blast
qed

theorem filtered_reports_exact_witness:
  "(\<exists>w. date_add_days \<lparr>year = 2024, month = 3, day = 11\<rparr> 6 = Inr w) \<and>
   schema_ok sample_db \<and>
   employee_reports_query sample_db 2 (period_label Weekly) \<lparr>year = 2024, month = 3, day = 11\<rparr>
     = Inr [(\<lparr>year = 2024, month = 3, day = 11\<rparr>, ''plan'')] \<and>
   admin_reports_query sample_db ''All Employees'' (period_label Weekly)
       \<lparr>year = 2024, month = 3, day = 11\<rparr>
     = Inr [(''bob'', \<lparr>year = 2024, month = 3, day = 15\<rparr>, ''review''),
            (''alice'', \<lparr>year = 2024, month = 3, day = 11\<rparr>, ''plan'')] \<and>
   mset [(\<lparr>year = 2024, month = 3, day = 11\<rparr>, ''plan'')] =
     mset (map (\<lambda>wr. (wr_report_date wr, wr_report_content wr))
            (filter (\<lambda>wr. wr_user_id wr = 2
                        \<and> resolve Weekly \<lparr>year = 2024, month = 3, day = 11\<rparr> (wr_report_date wr))
               (work_reports sample_db))) \<and>
   (\<exists>owner :: work_report \<Rightarrow> user.
      mset [(''bob'', \<lparr>year = 2024, month = 3, day = 15\<rparr>, ''review''),
            (''alice'', \<lparr>year = 2024, month = 3, day = 11\<rparr>, ''plan'')] =
        mset (map (\<lambda>wr. (u_username (owner wr), wr_report_date wr, wr_report_content wr))
               (filter (\<lambda>wr. resolve Weekly \<lparr>year = 2024, month = 3, day = 11\<rparr>
                                 (wr_report_date wr))
                  (work_reports sample_db))))"
proof -
  have h: "Weekly = Weekly \<longrightarrow> (\<exists>w. date_add_days \<lparr>year = 2024, month = 3, day = 11\<rparr> 6 = Inr w)"
    by (simp add: week_of_11_March_2024)
  have mine: "employee_reports_query sample_db 2 (period_label Weekly)
      \<lparr>year = 2024, month = 3, day = 11\<rparr> = Inr [(\<lparr>year = 2024, month = 3, day = 11\<rparr>, ''plan'')]"
    by (simp add: employee_reports_query_def period_clause_def week_of_11_March_2024
          order_by_report_date_desc_def date_le_def date_key_def sample_defs)
  have everyone: "admin_reports_query sample_db ''All Employees'' (period_label Weekly)
      \<lparr>year = 2024, month = 3, day = 11\<rparr>
     = Inr [(''bob'', \<lparr>year = 2024, month = 3, day = 15\<rparr>, ''review''),
            (''alice'', \<lparr>year = 2024, month = 3, day = 11\<rparr>, ''plan'')]"
    by (simp add: admin_reports_query_def period_clause_def week_of_11_March_2024
          order_by_report_date_desc_def work_reports_join_users_def date_le_def date_key_def
          sample_defs)
  from filtered_reports_exact [OF h, of sample_db 2 "''All Employees''"]
  obtain m e where
    q1: "employee_reports_query sample_db 2 (period_label Weekly)
           \<lparr>year = 2024, month = 3, day = 11\<rparr> = Inr m" and
    m1: "mset m = mset (map (\<lambda>wr. (wr_report_date wr, wr_report_content wr))
            (filter (\<lambda>wr. wr_user_id wr = 2
                        \<and> resolve Weekly \<lparr>year = 2024, month = 3, day = 11\<rparr> (wr_report_date wr))
               (work_reports sample_db)))" and
    q2: "admin_reports_query sample_db ''All Employees'' (period_label Weekly)
           \<lparr>year = 2024, month = 3, day = 11\<rparr> = Inr e" and
    a5: "schema_ok sample_db \<longrightarrow>
        (\<exists>owner.
           (\<forall>wr\<in>set (work_reports sample_db).
               owner wr \<in> set (users sample_db) \<and> u_id (owner wr) = wr_user_id wr) \<and>
           mset e =
             mset (map (\<lambda>wr. (u_username (owner wr), wr_report_date wr, wr_report_content wr))
                    (filter (\<lambda>wr. (''All Employees'' \<noteq> ''All Employees''
                                     \<longrightarrow> u_username (owner wr) = ''All Employees'')
                                  \<and> resolve Weekly \<lparr>year = 2024, month = 3, day = 11\<rparr>
                                       (wr_report_date wr))
                       (work_reports sample_db))))"
    by blast
  from q1 mine have m: "m = [(\<lparr>year = 2024, month = 3, day = 11\<rparr>, ''plan'')]"
    by simp
  from q2 everyone have e: "e = [(''bob'', \<lparr>year = 2024, month = 3, day = 15\<rparr>, ''review''),
            (''alice'', \<lparr>year = 2024, month = 3, day = 11\<rparr>, ''plan'')]"
    by simp
  from a5 schema_ok_sample_db have "\<exists>owner.
           (\<forall>wr\<in>set (work_reports sample_db).
               owner wr \<in> set (users sample_db) \<and> u_id (owner wr) = wr_user_id wr) \<and>
           mset e =
             mset (map (\<lambda>wr. (u_username (owner wr), wr_report_date wr, wr_report_content wr))
                    (filter (\<lambda>wr. (''All Employees'' \<noteq> ''All Employees''
                                     \<longrightarrow> u_username (owner wr) = ''All Employees'')
                                  \<and> resolve Weekly \<lparr>year = 2024, month = 3, day = 11\<rparr>
                                       (wr_report_date wr))
                       (work_reports sample_db)))"
    by (rule mp)
  then obtain owner where
    c: "(\<forall>wr\<in>set (work_reports sample_db).
               owner wr \<in> set (users sample_db) \<and> u_id (owner wr) = wr_user_id wr) \<and>
           mset e =
             mset (map (\<lambda>wr. (u_username (owner wr), wr_report_date wr, wr_report_content wr))
                    (filter (\<lambda>wr. (''All Employees'' \<noteq> ''All Employees''
                                     \<longrightarrow> u_username (owner wr) = ''All Employees'')
                                  \<and> resolve Weekly \<lparr>year = 2024, month = 3, day = 11\<rparr>
                                       (wr_report_date wr))
                       (work_reports sample_db)))" ..
  note o0 = conjunct2 [OF c]
  from o0 have
    o: "mset e =
          mset (map (\<lambda>wr. (u_username (owner wr), wr_report_date wr, wr_report_content wr))
                 (filter (\<lambda>wr. resolve Weekly \<lparr>year = 2024, month = 3, day = 11\<rparr>
                                   (wr_report_date wr))
                    (work_reports sample_db)))"
    by (simp only: simp_thms)
  have ex: "\<exists>owner :: work_report \<Rightarrow> user.
      mset [(''bob'', \<lparr>year = 2024, month = 3, day = 15\<rparr>, ''review''),
            (''alice'', \<lparr>year = 2024, month = 3, day = 11\<rparr>, ''plan'')] =
        mset (map (\<lambda>wr. (u_username (owner wr), wr_report_date wr, wr_report_content wr))
               (filter (\<lambda>wr. resolve Weekly \<lparr>year = 2024, month = 3, day = 11\<rparr>
                                 (wr_report_date wr))
                  (work_reports sample_db)))"
    by (rule exI) (rule o [unfolded e])
  from h have h': "\<exists>w. date_add_days \<lparr>year = 2024, month = 3, day = 11\<rparr> 6 = Inr w"
    by simp
  from m1 have m1': "mset [(\<lparr>year = 2024, month = 3, day = 11\<rparr>, ''plan'')] =
     mset (map (\<lambda>wr. (wr_report_date wr, wr_report_content wr))
            (filter (\<lambda>wr. wr_user_id wr = 2
                        \<and> resolve Weekly \<lparr>year = 2024, month = 3, day = 11\<rparr> (wr_report_date wr))
               (work_reports sample_db)))"
    unfolding m .
  show ?thesis
    by (intro conjI) (rule h', rule schema_ok_sample_db, rule mine, rule everyone, rule m1', rule ex)
qed

section \<open>The report upsert\<close>

lemma upsert_existing:
  assumes "one_report_per_day s"
    and "find (\<lambda>wr. wr_user_id wr = uid \<and> wr_report_date wr = d) (work_reports s) = Some r"
  shows "upsert s uid d c now =
           Inr (''Report updated successfully!'', update_report_content s c (wr_id r))"
    and "distinct (map wr_id (work_reports s)) \<Longrightarrow>
         filter (\<lambda>wr. wr_user_id wr = uid \<and> wr_report_date wr = d)
           (work_reports (update_report_content s c (wr_id r))) = [r\<lparr>wr_report_content := c\<rparr>]"
proof -
  show "upsert s uid d c now =
          Inr (''Report updated successfully!'', update_report_content s c (wr_id r))"
    using assms(2) by (simp add: upsert_def)
  have one: "filter (\<lambda>wr. wr_user_id wr = uid \<and> wr_report_date wr = d) (work_reports s) = [r]"
    using assms
      find_filter_distinct [of "\<lambda>wr. (wr_user_id wr, wr_report_date wr)" "work_reports s" "(uid, d)" r]
    by (simp add: one_report_per_day_def)
  have "filter (\<lambda>wr. wr_user_id wr = uid \<and> wr_report_date wr = d)
          (map (\<lambda>wr. if wr_id wr = i then wr\<lparr>wr_report_content := c\<rparr> else wr) xs)
        = map (\<lambda>wr. if wr_id wr = i then wr\<lparr>wr_report_content := c\<rparr> else wr)
            (filter (\<lambda>wr. wr_user_id wr = uid \<and> wr_report_date wr = d) xs)"
    for i and xs :: "work_report list"
    by (induction xs) auto
  then show "filter (\<lambda>wr. wr_user_id wr = uid \<and> wr_report_date wr = d)
           (work_reports (update_report_content s c (wr_id r))) = [r\<lparr>wr_report_content := c\<rparr>]"
    by (simp add: update_report_content_def one)
qed

lemma one_report_per_day_update:
  "one_report_per_day s \<Longrightarrow> one_report_per_day (update_report_content s c i)"
  by (simp add: one_report_per_day_def update_report_content_def o_def
        if_distrib [of wr_user_id] if_distrib [of wr_report_date] cong: if_cong)

lemma find_after_update:
  assumes "find (\<lambda>wr. wr_user_id wr = uid \<and> wr_report_date wr = d) (work_reports s) = Some r"
  shows "\<exists>r'. find (\<lambda>wr. wr_user_id wr = uid \<and> wr_report_date wr = d)
            (work_reports (update_report_content s c i)) = Some r' \<and> wr_id r' = wr_id r"
proof -
  have "find (\<lambda>wr. wr_user_id wr = uid \<and> wr_report_date wr = d) xs = Some r \<Longrightarrow>
        \<exists>r'. find (\<lambda>wr. wr_user_id wr = uid \<and> wr_report_date wr = d)
            (map (\<lambda>wr. if wr_id wr = i then wr\<lparr>wr_report_content := c\<rparr> else wr) xs) = Some r'
           \<and> wr_id r' = wr_id r" for xs :: "work_report list"
    by (induction xs) (auto split: if_splits)
  with assms show ?thesis by (simp add: update_report_content_def)
qed

text \<open>
  C2. On a database that keeps the schema's constraints and holds at most one
  report per user and date, for an existing user: upsert with content \<open>c1\<close> and
  then upsert with content \<open>c2\<close> for the same user and date both succeed, and
  afterwards exactly one report row has that user and date, with content \<open>c2\<close>.
  The first call reports "updated" when a row was there and "submitted" (created)
  when none was; the second reports "updated".
\<close>

theorem upsert_twice_one_row:
  assumes "schema_ok s" and "one_report_per_day s" and "uid \<in> u_id ` set (users s)"
  shows "\<exists>m1 s1 m2 s2 wr.
     upsert s uid d c1 now1 = Inr (m1, s1) \<and>
     upsert s1 uid d c2 now2 = Inr (m2, s2) \<and>
     filter (\<lambda>wr. wr_user_id wr = uid \<and> wr_report_date wr = d) (work_reports s2) = [wr] \<and>
     wr_report_content wr = c2 \<and>
     m1 = (if \<exists>wr\<in>set (work_reports s). wr_user_id wr = uid \<and> wr_report_date wr = d
           then ''Report updated successfully!'' else ''Report submitted successfully!'') \<and>
     m2 = ''Report updated successfully!''"
proof (cases "find (\<lambda>wr. wr_user_id wr = uid \<and> wr_report_date wr = d) (work_reports s)")
  case (Some r)
  let ?s1 = "update_report_content s c1 (wr_id r)"
  have ex: "\<exists>wr\<in>set (work_reports s). wr_user_id wr = uid \<and> wr_report_date wr = d"
    using find_Some_mem [OF Some] by blast
  have u1: "upsert s uid d c1 now1 = Inr (''Report updated successfully!'', ?s1)"
    using upsert_existing(1) [OF assms(2) Some] .
  obtain r' where r':
    "find (\<lambda>wr. wr_user_id wr = uid \<and> wr_report_date wr = d) (work_reports ?s1) = Some r'"
    using find_after_update [OF Some] by blast
  have inv1: "one_report_per_day ?s1"
    using assms(2) by (rule one_report_per_day_update)
  have d1: "distinct (map wr_id (work_reports ?s1))"
    using assms(1)
    by (simp add: schema_ok_def update_report_content_def o_def if_distrib [of wr_id]
          cong: if_cong)
  let ?s2 = "update_report_content ?s1 c2 (wr_id r')"
  have u2: "upsert ?s1 uid d c2 now2 = Inr (''Report updated successfully!'', ?s2)"
    using upsert_existing(1) [OF inv1 r'] .
  have f2: "filter (\<lambda>wr. wr_user_id wr = uid \<and> wr_report_date wr = d) (work_reports ?s2)
              = [r'\<lparr>wr_report_content := c2\<rparr>]"
    using upsert_existing(2) [OF inv1 r' d1] .
  from u1 u2 f2 ex show ?thesis by simp
next
  case None
  have nex: "\<not> (\<exists>wr\<in>set (work_reports s). wr_user_id wr = uid \<and> wr_report_date wr = d)"
    using None by (auto simp: find_None_iff)
  let ?n = "\<lparr>wr_id = work_reports_id_seq s, wr_user_id = uid, wr_report_date = d,
             wr_report_content = c1, wr_created_at = now1\<rparr>"
  let ?s1 = "s\<lparr>work_reports := work_reports s @ [?n],
               work_reports_id_seq := work_reports_id_seq s + 1\<rparr>"
  have u1: "upsert s uid d c1 now1 = Inr (''Report submitted successfully!'', ?s1)"
    using None assms(3) by (simp add: upsert_def insert_work_reports_def)
  have fnd: "find (\<lambda>wr. wr_user_id wr = uid \<and> wr_report_date wr = d) (work_reports ?s1) = Some ?n"
    using None by (simp add: find_append_None)
  have inv1: "one_report_per_day ?s1"
    using assms(2) nex by (auto simp: one_report_per_day_def)
  have d1: "distinct (map wr_id (work_reports ?s1))"
    using assms(1) by (auto simp: schema_ok_def list_all_iff)
  let ?s2 = "update_report_content ?s1 c2 (wr_id ?n)"
  have u2: "upsert ?s1 uid d c2 now2 = Inr (''Report updated successfully!'', ?s2)"
    using upsert_existing(1) [OF inv1 fnd] .
  have f2: "filter (\<lambda>wr. wr_user_id wr = uid \<and> wr_report_date wr = d) (work_reports ?s2)
              = [?n\<lparr>wr_report_content := c2\<rparr>]"
    using upsert_existing(2) [OF inv1 fnd d1] .
  from u1 u2 f2 nex show ?thesis by simp
qed

theorem upsert_twice_one_row_witness:
  "schema_ok sample_db \<and> one_report_per_day sample_db \<and> 3 \<in> u_id ` set (users sample_db) \<and>
   (\<exists>m1 s1 m2 s2 wr.
     upsert sample_db 3 \<lparr>year = 2024, month = 3, day = 18\<rparr> ''draft'' 400 = Inr (m1, s1) \<and>
     upsert s1 3 \<lparr>year = 2024, month = 3, day = 18\<rparr> ''final'' 500 = Inr (m2, s2) \<and>
     filter (\<lambda>wr. wr_user_id wr = 3 \<and> wr_report_date wr = \<lparr>year = 2024, month = 3, day = 18\<rparr>)
       (work_reports s2) = [wr] \<and>
     wr_report_content wr = ''final'' \<and>
     m1 = ''Report submitted successfully!'' \<and>
     m2 = ''Report updated successfully!'')"
proof -
  have h3: "3 \<in> u_id ` set (users sample_db)"
    by (simp add: sample_defs)
  have fresh: "\<not> (\<exists>wr\<in>set (work_reports sample_db).
                    wr_user_id wr = 3 \<and> wr_report_date wr = \<lparr>year = 2024, month = 3, day = 18\<rparr>)"
    by (simp add: sample_defs)
  from upsert_twice_one_row [OF schema_ok_sample_db one_report_per_day_sample_db h3,
      of "\<lparr>year = 2024, month = 3, day = 18\<rparr>" "''draft''" 400 "''final''" 500] fresh
  have "\<exists>m1 s1 m2 s2 wr.
     upsert sample_db 3 \<lparr>year = 2024, month = 3, day = 18\<rparr> ''draft'' 400 = Inr (m1, s1) \<and>
     upsert s1 3 \<lparr>year = 2024, month = 3, day = 18\<rparr> ''final'' 500 = Inr (m2, s2) \<and>
     filter (\<lambda>wr. wr_user_id wr = 3 \<and> wr_report_date wr = \<lparr>year = 2024, month = 3, day = 18\<rparr>)
       (work_reports s2) = [wr] \<and>
     wr_report_content wr = ''final'' \<and>
     m1 = ''Report submitted successfully!'' \<and>
     m2 = ''Report updated successfully!''"
    by simp
  with schema_ok_sample_db one_report_per_day_sample_db h3 show ?thesis by blast
qed

section \<open>Task listings\<close>

lemma pending_first_le:
  "pending_first a \<le> pending_first b \<longleftrightarrow>
     (t_status a = ''pending'' \<and> t_status b \<noteq> ''pending'') \<or>
     ((t_status a = ''pending'') = (t_status b = ''pending'')
        \<and> date_le (t_due_date a) (t_due_date b))"
  by (auto simp: pending_first_def date_le_def)

lemma sorted_my_tasks_query:
  "sorted_wrt (\<lambda>a b. (t_status a = ''pending'' \<and> t_status b \<noteq> ''pending'') \<or>
                      ((t_status a = ''pending'') = (t_status b = ''pending'')
                         \<and> date_le (t_due_date a) (t_due_date b)))
     (my_tasks_query s uid)"
proof -
  have "sorted (map pending_first (my_tasks_query s uid))"
    unfolding my_tasks_query_def by (rule sorted_sort_key)
  then have "sorted_wrt (\<lambda>a b. pending_first a \<le> pending_first b) (my_tasks_query s uid)"
    by (simp add: sorted_map)
  then show ?thesis by (simp only: pending_first_le)
qed

lemma sorted_existing_tasks_query:
  "\<exists>joined. existing_tasks_query s = map existing_tasks_row joined \<and>
     mset joined = mset (tasks_join_users s) \<and>
     sorted_wrt (\<lambda>a b. date_le (t_due_date (fst a)) (t_due_date (fst b))) joined"
proof -
  let ?j = "sort_key (\<lambda>(t, u). date_key (t_due_date t)) (tasks_join_users s)"
  have "sorted (map (\<lambda>(t, u). date_key (t_due_date t)) ?j)"
    by (rule sorted_sort_key)
  then have "sorted_wrt (\<lambda>a b. date_le (t_due_date (fst a)) (t_due_date (fst b))) ?j"
    by (simp add: sorted_map date_le_def case_prod_unfold)
  moreover have "mset ?j = mset (tasks_join_users s)"
    by simp
  moreover have "existing_tasks_query s = map existing_tasks_row ?j"
    by (simp add: existing_tasks_query_def)
  ultimately show ?thesis by blast
qed

lemma my_tasks_query_three:
  assumes "tasks s = [t1, t2, t3]"
    and "t_user_id t1 = uid" and "t_user_id t2 = uid" and "t_user_id t3 = uid"
    and "t_status t1 = ''completed''" and "t_status t2 = ''pending''"
    and "t_status t3 = ''pending''"
    and "date_key (t_due_date t3) < date_key (t_due_date t2)"
  shows "my_tasks_query s uid = [t3, t2, t1]"
  using assms by (simp add: my_tasks_query_def pending_first_def not_le)

lemma my_tasks_query_ordered:
  "mset (my_tasks_query s uid) = mset (filter (\<lambda>t. t_user_id t = uid) (tasks s))"
  "sorted_wrt (\<lambda>a b. (t_status a = ''pending'' \<and> t_status b \<noteq> ''pending'') \<or>
                      ((t_status a = ''pending'') = (t_status b = ''pending'')
                         \<and> date_le (t_due_date a) (t_due_date b)))
     (my_tasks_query s uid)"
  by (simp add: my_tasks_query_def) (rule sorted_my_tasks_query)

text \<open>
  C3. The two task listings disagree on the order. The tasks of the sample state
  all belong to alice (user 2) and have statuses completed, pending, pending and due
  dates 5, 20 and 10 March 2024, so the second is due after the third. The
  employee's list (\<open>employee_view_tasks\<close>) returns them as the claim says: the
  pending task due on the 10th, the pending task due on the 20th, then the completed
  task. The admin's listing of all tasks (\<open>admin_assign_task\<close>) is ordered by due
  date alone and returns the completed task first, which is not the order of the
  claim.
\<close>

theorem existing_tasks_not_pending_first:
  "tasks sample_db = [audit, deploy, backup] \<and>
   map t_status (tasks sample_db) = [''completed'', ''pending'', ''pending''] \<and>
   date_key (t_due_date backup) < date_key (t_due_date deploy) \<and>
   my_tasks_query sample_db 2 = [backup, deploy, audit] \<and>
   existing_tasks_query sample_db =
     [(1, ''alice'', ''audit'', \<lparr>year = 2024, month = 3, day = 5\<rparr>, ''completed''),
      (3, ''alice'', ''backup'', \<lparr>year = 2024, month = 3, day = 10\<rparr>, ''pending''),
      (2, ''alice'', ''deploy'', \<lparr>year = 2024, month = 3, day = 20\<rparr>, ''pending'')] \<and>
   existing_tasks_query sample_db \<noteq>
     [(3, ''alice'', ''backup'', \<lparr>year = 2024, month = 3, day = 10\<rparr>, ''pending''),
      (2, ''alice'', ''deploy'', \<lparr>year = 2024, month = 3, day = 20\<rparr>, ''pending''),
      (1, ''alice'', ''audit'', \<lparr>year = 2024, month = 3, day = 5\<rparr>, ''completed'')]"
proof -
  have "tasks sample_db = [audit, deploy, backup]"
    and "map t_status (tasks sample_db) = [''completed'', ''pending'', ''pending'']"
    and "date_key (t_due_date backup) < date_key (t_due_date deploy)"
    by (simp_all add: sample_defs date_key_def)
  moreover have "my_tasks_query sample_db 2 = [backup, deploy, audit]"
    by (simp add: my_tasks_query_def pending_first_def date_key_def sample_defs)
  moreover have "existing_tasks_query sample_db =
     [(1, ''alice'', ''audit'', \<lparr>year = 2024, month = 3, day = 5\<rparr>, ''completed''),
      (3, ''alice'', ''backup'', \<lparr>year = 2024, month = 3, day = 10\<rparr>, ''pending''),
      (2, ''alice'', ''deploy'', \<lparr>year = 2024, month = 3, day = 20\<rparr>, ''pending'')]"
    by (simp add: existing_tasks_query_def tasks_join_users_def sample_defs
          existing_tasks_row_def date_key_def)
  ultimately show ?thesis by simp
qed

section \<open>Authentication\<close>

lemma init_db_succeeds: "\<exists>s0. init_db sha256 s = Inr s0"
  by (auto simp: init_db_def insert_users_def varchar_def find_None_iff image_iff)

text \<open>
  C4. \<^verbatim>\<open>authenticate\<close> returns a user exactly when a stored user has that username
  and the digest of the password as its stored hash, and the user it returns is
  such a stored row. Otherwise it returns \<^verbatim>\<open>None\<close>: the same value when no user
  has the username and when the username exists with another hash; the run of
  the login form then shows the one error "Invalid username or password", followed
  by the landing page's "Please login to access the system.", and the session stays
  anonymous.
\<close>

theorem authenticate_exact:
  "((\<exists>usr. authenticate sha256 s username password = Some usr) \<longleftrightarrow>
      (\<exists>usr\<in>set (users s). u_username usr = username \<and> u_password usr = sha256 password)) \<and>
   (\<forall>usr. authenticate sha256 s username password = Some usr \<longrightarrow>
      usr \<in> set (users s) \<and> u_username usr = username \<and> u_password usr = sha256 password) \<and>
   (username \<notin> u_username ` set (users s) \<longrightarrow>
      authenticate sha256 s username password = None) \<and>
   ((\<forall>usr\<in>set (users s). u_username usr = username \<longrightarrow> u_password usr \<noteq> sha256 password) \<longrightarrow>
      authenticate sha256 s username password = None) \<and>
   (init_db sha256 db = Inr s \<and> authenticate sha256 s username password = None \<longrightarrow>
      main sha256 now w (Login username password) (Some None, db) =
        (([St_error ''Invalid username or password'',
           St_info ''Please login to access the system.''], Running), Some None, s))"
proof -
  let ?P = "\<lambda>u. u_username u = username \<and> u_password u = sha256 password"
  have auth: "authenticate sha256 s username password = find ?P (users s)"
    by (simp add: authenticate_def hash_password_def)
  have some: "find ?P (users s) = Some usr \<Longrightarrow> usr \<in> set (users s) \<and> ?P usr" for usr
    by (rule find_Some_mem)
  have none: "find ?P (users s) = None \<longleftrightarrow> \<not> (\<exists>usr\<in>set (users s). ?P usr)"
    by (auto simp: find_None_iff)
  have c1: "(\<exists>usr. authenticate sha256 s username password = Some usr) \<longleftrightarrow>
      (\<exists>usr\<in>set (users s). ?P usr)"
    unfolding auth using none by (cases "find ?P (users s)") auto
  have c2: "\<forall>usr. authenticate sha256 s username password = Some usr \<longrightarrow>
      usr \<in> set (users s) \<and> u_username usr = username \<and> u_password usr = sha256 password"
    unfolding auth using some by blast
  have c3: "username \<notin> u_username ` set (users s) \<longrightarrow>
      authenticate sha256 s username password = None"
    unfolding auth none by auto
  have c4: "(\<forall>usr\<in>set (users s). u_username usr = username \<longrightarrow> u_password usr \<noteq> sha256 password)
      \<longrightarrow> authenticate sha256 s username password = None"
    unfolding auth none by auto
  have c5: "init_db sha256 db = Inr s \<and> authenticate sha256 s username password = None \<longrightarrow>
      main sha256 now w (Login username password) (Some None, db) =
        (([St_error ''Invalid username or password'',
           St_info ''Please login to access the system.''], Running), Some None, s)"
    by (simp add: main_def session_user_def)
  from c1 c2 c3 c4 c5 show ?thesis by blast
qed

theorem authenticate_exact_witness:
  "(\<exists>usr\<in>set (users sample_db).
      u_username usr = ''alice'' \<and> u_password usr = sample_digest ''wonder'') \<and>
   (\<exists>usr. authenticate sample_digest sample_db ''alice'' ''wonder'' = Some usr) \<and>
   ''nobody'' \<notin> u_username ` set (users sample_db) \<and>
   authenticate sample_digest sample_db ''nobody'' ''admin123'' = None \<and>
   authenticate sample_digest sample_db ''admin'' ''wrong'' = None \<and>
   init_db sample_digest sample_db = Inr sample_db \<and>
   main sample_digest 0 sample_view (Login ''admin'' ''wrong'') (Some None, sample_db) =
     (([St_error ''Invalid username or password'',
       St_info ''Please login to access the system.''], Running), Some None, sample_db)"
proof -
  have h1: "\<exists>usr\<in>set (users sample_db).
      u_username usr = ''alice'' \<and> u_password usr = sample_digest ''wonder''"
    by (simp add: sample_defs)
  have h2: "''nobody'' \<notin> u_username ` set (users sample_db)"
    by (simp add: sample_defs)
  have h3: "\<forall>usr\<in>set (users sample_db).
      u_username usr = ''admin'' \<longrightarrow> u_password usr \<noteq> sample_digest ''wrong''"
    by (simp add: sample_defs sample_digest_def)
  have h4: "init_db sample_digest sample_db = Inr sample_db"
    by (simp add: init_db_def sample_defs)
  from h1 authenticate_exact [of sample_digest sample_db "''alice''" "''wonder''"]
  have a1: "\<exists>usr. authenticate sample_digest sample_db ''alice'' ''wonder'' = Some usr"
    by blast
  from h2 authenticate_exact [of sample_digest sample_db "''nobody''" "''admin123''"]
  have a2: "authenticate sample_digest sample_db ''nobody'' ''admin123'' = None"
    by blast
  from h3 authenticate_exact [of sample_digest sample_db "''admin''" "''wrong''"]
  have a3: "authenticate sample_digest sample_db ''admin'' ''wrong'' = None"
    by blast
  from h4 a3 authenticate_exact [of sample_digest sample_db "''admin''" "''wrong''" sample_db 0]
  have a4: "main sample_digest 0 sample_view (Login ''admin'' ''wrong'') (Some None, sample_db) =
     (([St_error ''Invalid username or password'',
       St_info ''Please login to access the system.''], Running), Some None, sample_db)"
    by blast
  from h1 h2 h4 a1 a2 a3 a4 show ?thesis by blast
qed

section \<open>Removing an employee\<close>

lemma find_distinct_key:
  assumes "distinct (map k xs)" and "e \<in> set xs"
  shows "find (\<lambda>x. k x = k e) xs = Some e"
  using assms by (induction xs) (auto simp: image_iff)

lemma find_employee_by_username:
  assumes "schema_ok s" and "e \<in> set (select_employees s)"
  shows "find (\<lambda>x. u_username x = u_username e) (select_employees s) = Some e"
proof -
  from assms(1) have "distinct (map u_username (users s))"
    by (simp add: schema_ok_def)
  then have "distinct (map u_username (select_employees s))"
    unfolding select_employees_def by (rule distinct_map_filter)
  then show ?thesis using assms(2) by (rule find_distinct_key)
qed

text \<open>
  Why the cascade comes first: while a report or a task still refers to a user,
  the \<^verbatim>\<open>DELETE\<close> on \<^verbatim>\<open>users\<close> is refused.
\<close>

lemma delete_users_refused:
  assumes "e \<in> set (users s)"
    and "u_id e \<in> wr_user_id ` set (work_reports s) \<or> u_id e \<in> t_user_id ` set (tasks s)"
  shows "delete_users s (u_id e) = Inl ForeignKeyViolation"
  using assms by (auto simp: delete_users_def)

text \<open>
  C5. On a database that keeps the schema's constraints, removing an employee
  (any user of role employee, selected by a non-empty username, with however many
  reports and tasks, none included) succeeds: the three \<^verbatim>\<open>DELETE\<close> statements run
  in the order reports, tasks, user, the last one meets no remaining reference,
  and afterwards no row of \<^verbatim>\<open>work_reports\<close>, \<^verbatim>\<open>tasks\<close> or \<^verbatim>\<open>users\<close> carries that
  user's id. The rows of other users stay as they were.
\<close>

theorem remove_employee_cascades:
  assumes "schema_ok s" and "e \<in> set (select_employees s)" and "u_username e \<noteq> []"
  shows "\<exists>s'. admin_manage_employees s (Some (u_username e)) True =
            Inr ([St_success (''Employee '' @ u_username e @ '' removed successfully!'')], s') \<and>
          delete_users (delete_tasks (delete_work_reports s (u_id e)) (u_id e)) (u_id e) = Inr s' \<and>
          u_id e \<notin> wr_user_id ` set (work_reports s') \<and>
          u_id e \<notin> t_user_id ` set (tasks s') \<and>
          u_id e \<notin> u_id ` set (users s') \<and>
          work_reports s' = filter (\<lambda>wr. wr_user_id wr \<noteq> u_id e) (work_reports s) \<and>
          tasks s' = filter (\<lambda>t. t_user_id t \<noteq> u_id e) (tasks s) \<and>
          users s' = filter (\<lambda>u. u_id u \<noteq> u_id e) (users s)"
proof -
  let ?s2 = "delete_tasks (delete_work_reports s (u_id e)) (u_id e)"
  let ?s3 = "?s2\<lparr>users := filter (\<lambda>u. u_id u \<noteq> u_id e) (users ?s2)\<rparr>"
  have del: "delete_users ?s2 (u_id e) = Inr ?s3"
    by (auto simp: delete_users_def delete_tasks_def delete_work_reports_def)
  have ne: "select_employees s \<noteq> []"
    using assms(2) by auto
  have page: "admin_manage_employees s (Some (u_username e)) True =
      Inr ([St_success (''Employee '' @ u_username e @ '' removed successfully!'')], ?s3)"
    using ne assms(3) find_employee_by_username [OF assms(1,2)] del
    by (simp add: admin_manage_employees_def Let_def)
  have rows: "u_id e \<notin> wr_user_id ` set (work_reports ?s3)"
    "u_id e \<notin> t_user_id ` set (tasks ?s3)"
    "u_id e \<notin> u_id ` set (users ?s3)"
    "work_reports ?s3 = filter (\<lambda>wr. wr_user_id wr \<noteq> u_id e) (work_reports s)"
    "tasks ?s3 = filter (\<lambda>t. t_user_id t \<noteq> u_id e) (tasks s)"
    "users ?s3 = filter (\<lambda>u. u_id u \<noteq> u_id e) (users s)"
    by (auto simp: delete_tasks_def delete_work_reports_def)
  from page del rows show ?thesis by blast
qed

theorem remove_employee_cascades_witness:
  "schema_ok sample_db \<and> alice \<in> set (select_employees sample_db) \<and>
   u_username alice \<noteq> [] \<and> u_id alice = 2 \<and>
   length (filter (\<lambda>wr. wr_user_id wr = 2) (work_reports sample_db)) = 2 \<and>
   length (filter (\<lambda>t. t_user_id t = 2) (tasks sample_db)) = 3 \<and>
   (\<exists>s'. admin_manage_employees sample_db (Some (u_username alice)) True =
            Inr ([St_success (''Employee '' @ u_username alice @ '' removed successfully!'')], s') \<and>
          2 \<notin> wr_user_id ` set (work_reports s') \<and>
          2 \<notin> t_user_id ` set (tasks s') \<and>
          2 \<notin> u_id ` set (users s'))"
proof -
  have h: "alice \<in> set (select_employees sample_db)"
    "u_username alice \<noteq> []" "u_id alice = 2"
    "length (filter (\<lambda>wr. wr_user_id wr = 2) (work_reports sample_db)) = 2"
    "length (filter (\<lambda>t. t_user_id t = 2) (tasks sample_db)) = 3"
    by (simp_all add: sample_defs select_employees_def)
  from remove_employee_cascades [OF schema_ok_sample_db h(1,2)] h schema_ok_sample_db
  show ?thesis by auto
qed

section \<open>What one run does to the database\<close>

text \<open>
  Each page function either leaves the database as it found it or commits the one
  statement (or the one cascade) of its form; a run of \<^verbatim>\<open>main\<close> is the bootstrap
  followed by at most one of them.
\<close>

lemma init_db_effect:
  assumes "init_db sha256 s = Inr s0"
  shows "s0 = s \<or> (''admin'' \<notin> u_username ` set (users s) \<and>
           insert_users s ''admin'' (sha256 ''admin123'') ''admin'' = Inr s0)"
  using assms by (auto simp: init_db_def find_None_iff image_iff split: if_splits)

lemma admin_create_employee_effect:
  assumes "admin_create_employee sha256 s username password b = Inr (shown, s')"
  shows "s' = s \<or>
         (username \<noteq> [] \<and> insert_users s username (sha256 password) ''employee'' = Inr s')"
  using assms
  by (auto simp: admin_create_employee_def hash_password_def split: if_splits sum.splits error.splits)

lemma admin_manage_employees_effect:
  assumes "admin_manage_employees s selected b = Inr (shown, s')"
  shows "s' = s \<or> (\<exists>e\<in>set (select_employees s).
           delete_users (delete_tasks (delete_work_reports s (u_id e)) (u_id e)) (u_id e) = Inr s')"
  using assms
  by (auto simp: admin_manage_employees_def Let_def
           split: if_splits option.splits sum.splits dest: find_Some_mem)

lemma admin_assign_task_effect:
  assumes "admin_assign_task s selected description due b now = Inr (shown, table, s')"
  shows "s' = s \<or> (\<exists>e\<in>set (select_employees s).
           insert_tasks s (u_id e) description due now = Inr s')"
  using assms
  by (auto simp: admin_assign_task_def Let_def
           split: if_splits option.splits sum.splits dest: find_Some_mem)

lemma upsert_effect:
  assumes "upsert s uid d c now = Inr (msg, s')"
  shows "(\<exists>r\<in>set (work_reports s). wr_user_id r = uid \<and> wr_report_date r = d \<and>
            s' = update_report_content s c (wr_id r)) \<or>
         ((\<forall>r\<in>set (work_reports s). \<not> (wr_user_id r = uid \<and> wr_report_date r = d)) \<and>
            insert_work_reports s uid d c now = Inr s')"
  using assms
  by (auto simp: upsert_def find_None_iff split: option.splits sum.splits dest: find_Some_mem)

lemma employee_submit_report_effect:
  assumes "employee_submit_report s uid d c b now = Inr (shown, s')"
  shows "s' = s \<or> (\<exists>msg. upsert s uid d c now = Inr (msg, s'))"
  using assms
  by (auto simp: employee_submit_report_def split: if_splits sum.splits)

lemma employee_view_tasks_effect:
  assumes "employee_view_tasks s uid selected b = Inr (shown, table, s')"
  shows "s' = s \<or> (\<exists>t\<in>set (tasks s). t_user_id t = uid \<and> t_status t = ''pending'' \<and>
           s' = complete s (t_id t))"
  using assms
  by (auto simp: employee_view_tasks_def Let_def my_tasks_query_def
           split: if_splits option.splits dest!: map_of_SomeD)

lemma then_page_db:
  assumes "then_page (shown, f, s) page = (shown', f', s')"
  shows "s' = s \<or> (\<exists>added. page s = Inr (added, s'))"
  using assms by (auto simp: then_page_def split: flow.splits sum.splits)

lemma then_page_rerun_db:
  assumes "then_page_rerun (shown, f, s) page = (shown', f', s')"
  shows "s' = s \<or> (\<exists>added. page s = Inr (added, s'))"
  using assms by (auto simp: then_page_rerun_def split: flow.splits sum.splits)

lemma create_employee_tab_effect:
  assumes "create_employee_tab sha256 ev s = Inr (shown, s')"
  shows "s' = s \<or>
         (\<exists>username password. ev = Create_Employee username password \<and> username \<noteq> [] \<and>
            insert_users s username (sha256 password) ''employee'' = Inr s')"
proof (cases ev)
  case (Create_Employee username password)
  with assms show ?thesis
    by (auto simp: create_employee_tab_def dest: admin_create_employee_effect)
qed (use assms in \<open>auto simp: create_employee_tab_def admin_create_employee_def\<close>)

lemma manage_employees_tab_effect:
  assumes "manage_employees_tab ev s = Inr (shown, s')"
  shows "s' = s \<or>
         (\<exists>selected. ev = Remove_Employee selected \<and>
            (\<exists>e\<in>set (select_employees s).
               delete_users (delete_tasks (delete_work_reports s (u_id e)) (u_id e)) (u_id e)
                 = Inr s'))"
proof (cases ev)
  case (Remove_Employee selected)
  with assms show ?thesis
    by (auto simp: manage_employees_tab_def dest: admin_manage_employees_effect)
qed (use assms in \<open>auto simp: manage_employees_tab_def admin_manage_employees_def Let_def
       split: if_splits\<close>)

lemma view_reports_tab_effect:
  assumes "view_reports_tab w s = Inr (shown, s')"
  shows "s' = s"
  using assms by (auto simp: view_reports_tab_def reading_def split: sum.splits)

lemma assign_task_tab_effect:
  assumes "assign_task_tab now ev s = Inr (shown, s')"
  shows "s' = s \<or>
         (\<exists>selected description due. ev = Assign_Task selected description due \<and>
            (\<exists>e\<in>set (select_employees s).
               insert_tasks s (u_id e) description due now = Inr s'))"
proof (cases ev)
  case (Assign_Task selected description due)
  with assms show ?thesis
    by (auto simp: assign_task_tab_def without_table_def split: sum.splits
          dest: admin_assign_task_effect)
qed (use assms in \<open>auto simp: assign_task_tab_def without_table_def admin_assign_task_def Let_def
       split: if_splits sum.splits\<close>)

lemma submit_report_tab_effect:
  assumes "submit_report_tab now uid ev s = Inr (shown, s')"
  shows "s' = s \<or>
         (\<exists>d c msg. ev = Submit_Report d c \<and> upsert s uid d c now = Inr (msg, s'))"
proof (cases ev)
  case (Submit_Report d c)
  with assms show ?thesis
    by (auto simp: submit_report_tab_def dest: employee_submit_report_effect)
qed (use assms in \<open>auto simp: submit_report_tab_def employee_submit_report_def\<close>)

lemma my_reports_tab_effect:
  assumes "my_reports_tab uid w s = Inr (shown, s')"
  shows "s' = s"
  using assms by (auto simp: my_reports_tab_def reading_def split: sum.splits)

lemma my_tasks_tab_effect:
  assumes "my_tasks_tab uid ev s = Inr (shown, s')"
  shows "s' = s \<or>
         (\<exists>selected. ev = Mark_Complete selected \<and>
            (\<exists>t\<in>set (tasks s). t_user_id t = uid \<and> t_status t = ''pending'' \<and>
               s' = complete s (t_id t)))"
proof (cases ev)
  case (Mark_Complete selected)
  with assms show ?thesis
    by (auto simp: my_tasks_tab_def without_table_def split: sum.splits
          dest: employee_view_tasks_effect)
qed (use assms in \<open>auto simp: my_tasks_tab_def without_table_def employee_view_tasks_def Let_def
       split: if_splits sum.splits\<close>)

lemma admin_dashboard_effect:
  assumes "admin_dashboard sha256 now w ev s0 = (shown, ended, s')"
  shows "s' = s0 \<or>
      (\<exists>username password. username \<noteq> [] \<and>
         insert_users s0 username (sha256 password) ''employee'' = Inr s') \<or>
      (\<exists>e\<in>set (select_employees s0).
         delete_users (delete_tasks (delete_work_reports s0 (u_id e)) (u_id e)) (u_id e) = Inr s') \<or>
      (\<exists>e\<in>set (select_employees s0). \<exists>description due.
         insert_tasks s0 (u_id e) description due now = Inr s')"
proof -
  obtain m1 f1 s1 where r1:
    "then_page ([], Running, s0) (create_employee_tab sha256 ev) = (m1, f1, s1)"
    by (metis prod_cases3)
  obtain m2 f2 s2 where r2:
    "then_page_rerun (m1, f1, s1) (manage_employees_tab ev) = (m2, f2, s2)"
    by (metis prod_cases3)
  obtain m3 f3 s3 where r3:
    "then_page (m2, f2, s2) (view_reports_tab w) = (m3, f3, s3)"
    by (metis prod_cases3)
  from assms have r4: "then_page (m3, f3, s3) (assign_task_tab now ev) = (shown, ended, s')"
    by (simp add: admin_dashboard_def r1 r2 r3)
  from then_page_db [OF r1] have e1: "s1 = s0 \<or>
      (\<exists>username password. ev = Create_Employee username password \<and> username \<noteq> [] \<and>
         insert_users s0 username (sha256 password) ''employee'' = Inr s1)"
    using create_employee_tab_effect by blast
  from then_page_rerun_db [OF r2] have e2: "s2 = s1 \<or>
      (\<exists>selected. ev = Remove_Employee selected \<and>
         (\<exists>e\<in>set (select_employees s1).
            delete_users (delete_tasks (delete_work_reports s1 (u_id e)) (u_id e)) (u_id e)
              = Inr s2))"
    using manage_employees_tab_effect by blast
  from then_page_db [OF r3] have e3: "s3 = s2"
    using view_reports_tab_effect by blast
  from then_page_db [OF r4] have e4: "s' = s3 \<or>
      (\<exists>selected description due. ev = Assign_Task selected description due \<and>
         (\<exists>e\<in>set (select_employees s3).
            insert_tasks s3 (u_id e) description due now = Inr s'))"
    using assign_task_tab_effect by blast
  show ?thesis
  proof (cases ev)
    case (Create_Employee username password)
    with e1 e2 e3 e4 show ?thesis by auto
  next
    case (Remove_Employee selected)
    with e1 e2 e3 e4 show ?thesis by auto
  next
    case (Assign_Task selected description due)
    with e1 e2 e3 e4 show ?thesis by auto
  qed (use e1 e2 e3 e4 in auto)
qed

lemma employee_dashboard_effect:
  assumes "employee_dashboard now w ev uid s0 = (shown, ended, s')"
  shows "s' = s0 \<or>
      (\<exists>d c msg. upsert s0 uid d c now = Inr (msg, s')) \<or>
      (\<exists>t\<in>set (tasks s0). t_user_id t = uid \<and> t_status t = ''pending'' \<and>
         s' = complete s0 (t_id t))"
proof -
  obtain m1 f1 s1 where r1:
    "then_page ([], Running, s0) (submit_report_tab now uid ev) = (m1, f1, s1)"
    by (metis prod_cases3)
  obtain m2 f2 s2 where r2:
    "then_page (m1, f1, s1) (my_reports_tab uid w) = (m2, f2, s2)"
    by (metis prod_cases3)
  from assms have r3: "then_page_rerun (m2, f2, s2) (my_tasks_tab uid ev) = (shown, ended, s')"
    by (simp add: employee_dashboard_def r1 r2)
  from then_page_db [OF r1] have e1: "s1 = s0 \<or>
      (\<exists>d c msg. ev = Submit_Report d c \<and> upsert s0 uid d c now = Inr (msg, s1))"
    using submit_report_tab_effect by blast
  from then_page_db [OF r2] have e2: "s2 = s1"
    using my_reports_tab_effect by blast
  from then_page_rerun_db [OF r3] have e3: "s' = s2 \<or>
      (\<exists>selected. ev = Mark_Complete selected \<and>
         (\<exists>t\<in>set (tasks s2). t_user_id t = uid \<and> t_status t = ''pending'' \<and>
            s' = complete s2 (t_id t)))"
    using my_tasks_tab_effect by blast
  show ?thesis
  proof (cases ev)
    case (Submit_Report d c)
    with e1 e2 e3 show ?thesis by auto
  next
    case (Mark_Complete selected)
    with e1 e2 e3 show ?thesis by auto
  qed (use e1 e2 e3 in auto)
qed

lemma main_effect:
  assumes "main sha256 now w ev (session, s) = (out, session', s')"
  shows "\<exists>s0. init_db sha256 s = Inr s0 \<and>
     (s' = s0 \<or>
      (\<exists>username password. username \<noteq> [] \<and>
         insert_users s0 username (sha256 password) ''employee'' = Inr s') \<or>
      (\<exists>e\<in>set (select_employees s0).
         delete_users (delete_tasks (delete_work_reports s0 (u_id e)) (u_id e)) (u_id e) = Inr s') \<or>
      (\<exists>e\<in>set (select_employees s0). \<exists>description due.
         insert_tasks s0 (u_id e) description due now = Inr s') \<or>
      (\<exists>uid d c msg. upsert s0 uid d c now = Inr (msg, s')) \<or>
      (\<exists>t\<in>set (tasks s0). t_status t = ''pending'' \<and> s' = complete s0 (t_id t)))"
proof -
  obtain s0 where s0: "init_db sha256 s = Inr s0"
    using init_db_succeeds by blast
  show ?thesis
  proof (cases "session_user session")
    case None
    with assms s0 have "s' = s0"
      by (auto simp: main_def split: event.splits option.splits)
    with s0 show ?thesis by blast
  next
    case (Some user)
    show ?thesis
    proof (cases "ev = Logout")
      case True
      with assms s0 Some have "s' = s0"
        by (simp add: main_def)
      with s0 show ?thesis by blast
    next
      case False
      show ?thesis
      proof (cases "u_role user = ''admin''")
        case True
        with assms s0 Some False obtain shown ended where
          "admin_dashboard sha256 now w ev s0 = (shown, ended, s')"
          by (auto simp: main_def split: prod.splits)
        from admin_dashboard_effect [OF this] s0 show ?thesis by blast
      next
        case no_admin: False
        with assms s0 Some False obtain shown ended where
          "employee_dashboard now w ev (u_id user) s0 = (shown, ended, s')"
          by (auto simp: main_def split: prod.splits)
        from employee_dashboard_effect [OF this] s0 show ?thesis by blast
      qed
    qed
  qed
qed

lemma init_db_tasks:
  assumes "init_db sha256 s = Inr s0"
  shows "tasks s0 = tasks s \<and> tasks_id_seq s0 = tasks_id_seq s \<and> work_reports s0 = work_reports s
         \<and> work_reports_id_seq s0 = work_reports_id_seq s"
  using init_db_effect [OF assms]
  by (auto simp: insert_users_def split: sum.splits if_splits)

lemma insert_users_tasks:
  assumes "insert_users s username password role = Inr s'"
  shows "tasks s' = tasks s \<and> work_reports s' = work_reports s"
  using assms by (auto simp: insert_users_def split: sum.splits if_splits)

lemma delete_chain_tasks:
  assumes "delete_users (delete_tasks (delete_work_reports s i) i) i = Inr s'"
  shows "tasks s' = filter (\<lambda>t. t_user_id t \<noteq> i) (tasks s)"
    and "work_reports s' = filter (\<lambda>wr. wr_user_id wr \<noteq> i) (work_reports s)"
    and "users s' = filter (\<lambda>u. u_id u \<noteq> i) (users s)"
  using assms
  by (auto simp: delete_users_def delete_tasks_def delete_work_reports_def split: if_splits)

lemma insert_tasks_tasks:
  assumes "insert_tasks s i description due now = Inr s'"
  shows "\<exists>t. tasks s' = tasks s @ [t] \<and> t_id t = tasks_id_seq s \<and> t_status t = ''pending''
             \<and> t_user_id t = i"
    and "work_reports s' = work_reports s" and "users s' = users s"
  using assms by (auto simp: insert_tasks_def split: if_splits)

lemma upsert_tasks:
  assumes "upsert s uid d c now = Inr (msg, s')"
  shows "tasks s' = tasks s \<and> users s' = users s"
  using assms
  by (auto simp: upsert_def update_report_content_def insert_work_reports_def
           split: option.splits if_splits)

lemma complete_tasks:
  "t' \<in> set (tasks (complete s i)) \<Longrightarrow> t' \<in> set (tasks s) \<or> t_status t' = ''completed''"
  by (auto simp: complete_def)

lemma main_tasks:
  assumes "main sha256 now w ev (session, s) = (out, session', s')" and "t' \<in> set (tasks s')"
  shows "t' \<in> set (tasks s) \<or> t_id t' = tasks_id_seq s \<or> t_status t' = ''completed''"
proof -
  from main_effect [OF assms(1)] obtain s0 where s0: "init_db sha256 s = Inr s0"
    and eff: "s' = s0 \<or>
      (\<exists>username password. username \<noteq> [] \<and>
         insert_users s0 username (sha256 password) ''employee'' = Inr s') \<or>
      (\<exists>e\<in>set (select_employees s0).
         delete_users (delete_tasks (delete_work_reports s0 (u_id e)) (u_id e)) (u_id e) = Inr s') \<or>
      (\<exists>e\<in>set (select_employees s0). \<exists>description due.
         insert_tasks s0 (u_id e) description due now = Inr s') \<or>
      (\<exists>uid d c msg. upsert s0 uid d c now = Inr (msg, s')) \<or>
      (\<exists>t\<in>set (tasks s0). t_status t = ''pending'' \<and> s' = complete s0 (t_id t))"
    by blast
  note i = init_db_tasks [OF s0]
  from eff have "t' \<in> set (tasks s0) \<or> t_id t' = tasks_id_seq s0 \<or> t_status t' = ''completed''"
  proof (elim disjE exE bexE conjE)
    assume "s' = s0"
    with assms(2) show ?thesis by simp
  next
    fix username password
    assume "insert_users s0 username (sha256 password) ''employee'' = Inr s'"
    from insert_users_tasks [OF this] assms(2) show ?thesis by simp
  next
    fix e :: user
    assume "delete_users (delete_tasks (delete_work_reports s0 (u_id e)) (u_id e)) (u_id e) = Inr s'"
    from delete_chain_tasks(1) [OF this] assms(2) show ?thesis by simp
  next
    fix e :: user and description due
    assume "insert_tasks s0 (u_id e) description due now = Inr s'"
    from insert_tasks_tasks(1) [OF this] assms(2) show ?thesis by auto
  next
    fix uid d c msg
    assume "upsert s0 uid d c now = Inr (msg, s')"
    from upsert_tasks [OF this] assms(2) show ?thesis by simp
  next
    fix t :: task
    assume "s' = complete s0 (t_id t)"
    with assms(2) complete_tasks [of t' s0 "t_id t"] show ?thesis by blast
  qed
  with i show ?thesis by simp
qed

lemma tasks_complete:
  "tasks (complete s i) =
     map (\<lambda>t. if t_id t = i then t\<lparr>t_status := ''completed''\<rparr> else t) (tasks s)"
  by (simp add: complete_def)

lemma complete_sets_status:
  assumes "t \<in> set (map (\<lambda>t. if t_id t = i then t\<lparr>t_status := ''completed''\<rparr> else t) xs)"
    and "t_id t = i"
  shows "t_status t = ''completed''"
  using assms
proof (induction xs)
  case Nil
  then show ?case by simp
next
  case (Cons a xs)
  show ?case
  proof (cases "t = (if t_id a = i then a\<lparr>t_status := ''completed''\<rparr> else a)")
    case True
    with Cons.prems(2) show ?thesis by (simp split: if_splits)
  next
    case False
    with Cons show ?thesis by simp
  qed
qed

lemma complete_twice:
  "map (\<lambda>t. if t_id t = i then t\<lparr>t_status := ''completed''\<rparr> else t)
     (map (\<lambda>t. if t_id t = i then t\<lparr>t_status := ''completed''\<rparr> else t) xs) =
   map (\<lambda>t. if t_id t = i then t\<lparr>t_status := ''completed''\<rparr> else t) xs"
  for xs :: "task list"
  by (induction xs) simp_all

lemma complete_keeps_ids:
  "map t_id (map (\<lambda>t. if t_id t = i then t\<lparr>t_status := ''completed''\<rparr> else t) xs) = map t_id xs"
  for xs :: "task list"
  by (induction xs) simp_all

section \<open>Completing a task\<close>

text \<open>
  C6. \<^verbatim>\<open>complete\<close> sets the status of the task of that id to completed and
  loses no row; a second \<^verbatim>\<open>complete\<close> of the same id changes nothing (the
  statement has no failure case). And no run of the script, whatever the event and
  the session, reopens a task: on a database that keeps the schema's constraints, a
  task that is completed before a run and still there after it is completed after
  it.
\<close>

theorem complete_idempotent_final:
  "(\<forall>t\<in>set (tasks (complete s i)). t_id t = i \<longrightarrow> t_status t = ''completed'') \<and>
   map t_id (tasks (complete s i)) = map t_id (tasks s) \<and>
   complete (complete s i) i = complete s i \<and>
   (schema_ok s \<and> main sha256 now w ev (session, s) = (out, session', s') \<and>
    t \<in> set (tasks s) \<and> t_status t = ''completed'' \<and> t' \<in> set (tasks s') \<and> t_id t' = t_id t
      \<longrightarrow> t_status t' = ''completed'')"
proof (intro conjI ballI impI)
  fix x
  assume "x \<in> set (tasks (complete s i))" and "t_id x = i"
  then show "t_status x = ''completed''"
    unfolding tasks_complete by (rule complete_sets_status)
next
  show "map t_id (tasks (complete s i)) = map t_id (tasks s)"
    unfolding tasks_complete by (rule complete_keeps_ids)
next
  show "complete (complete s i) i = complete s i"
    by (simp add: complete_def complete_twice)
next
  assume h: "schema_ok s \<and> main sha256 now w ev (session, s) = (out, session', s') \<and>
    t \<in> set (tasks s) \<and> t_status t = ''completed'' \<and> t' \<in> set (tasks s') \<and> t_id t' = t_id t"
  then have dist: "distinct (map t_id (tasks s))"
    and below: "\<forall>x\<in>set (tasks s). t_id x < tasks_id_seq s"
    by (simp_all add: schema_ok_def list_all_iff)
  from h have run: "main sha256 now w ev (session, s) = (out, session', s')"
    and t: "t \<in> set (tasks s)" "t_status t = ''completed''"
    and t': "t' \<in> set (tasks s')" "t_id t' = t_id t"
    by simp_all
  from main_tasks [OF run t'(1)] show "t_status t' = ''completed''"
  proof (elim disjE)
    assume mem: "t' \<in> set (tasks s)"
    from dist have "inj_on t_id (set (tasks s))"
      by (simp add: distinct_map)
    from inj_onD [OF this t'(2) mem t(1)] t(2) show ?thesis by simp
  next
    assume "t_id t' = tasks_id_seq s"
    with below t(1) t'(2) show ?thesis by auto
  qed
qed

theorem complete_idempotent_final_witness:
  "schema_ok sample_db \<and>
   main sample_digest 0 sample_view (Mark_Complete (Some ''3: backup...'')) (Some (Some alice), sample_db) =
     (([St_success ''Task marked as complete!''], Rerun), Some (Some alice),
      complete sample_db 3) \<and>
   audit \<in> set (tasks sample_db) \<and> t_status audit = ''completed'' \<and>
   audit \<in> set (tasks (complete sample_db 3)) \<and>
   backup\<lparr>t_status := ''completed''\<rparr> \<in> set (tasks (complete sample_db 3)) \<and>
   t_id (backup\<lparr>t_status := ''completed''\<rparr>) = 3 \<and>
   t_status (backup\<lparr>t_status := ''completed''\<rparr>) = ''completed'' \<and>
   complete (complete sample_db 3) 3 = complete sample_db 3"
proof -
  have i: "init_db sample_digest sample_db = Inr sample_db"
    by (simp add: init_db_def sample_defs)
  have t1: "submit_report_tab 0 2 (Mark_Complete (Some ''3: backup...'')) sample_db
              = Inr ([], sample_db)"
    by (simp add: submit_report_tab_def employee_submit_report_def)
  have t2: "my_reports_tab 2 sample_view sample_db = Inr ([], sample_db)"
    by (simp add: my_reports_tab_def reading_def employee_view_reports_def
          employee_reports_query_def period_clause_def order_by_report_date_desc_def
          date_key_def sample_view_def sample_defs)
  have t3: "my_tasks_tab 2 (Mark_Complete (Some ''3: backup...'')) sample_db =
      Inr ([St_success ''Task marked as complete!''], complete sample_db 3)"
    by (simp add: my_tasks_tab_def employee_view_tasks_def without_table_def my_tasks_query_def
          sample_defs pending_first_def date_key_def task_label_def str_int_def str_nat.simps)
  have page: "employee_dashboard 0 sample_view (Mark_Complete (Some ''3: backup...'')) 2 sample_db
      = ([St_success ''Task marked as complete!''], Rerun, complete sample_db 3)"
    by (simp add: employee_dashboard_def then_page_def then_page_rerun_def t1 t2 t3)
  have u: "u_role alice = ''employee''" "u_id alice = 2"
    by (simp_all add: alice_def)
  have run: "main sample_digest 0 sample_view (Mark_Complete (Some ''3: backup...''))
               (Some (Some alice), sample_db) =
     (([St_success ''Task marked as complete!''], Rerun), Some (Some alice),
      complete sample_db 3)"
    by (simp add: main_def session_user_def i u page)
  have mem: "audit \<in> set (tasks sample_db)" "t_status audit = ''completed''"
    "audit \<in> set (tasks (complete sample_db 3))"
    "backup\<lparr>t_status := ''completed''\<rparr> \<in> set (tasks (complete sample_db 3))"
    "t_id (backup\<lparr>t_status := ''completed''\<rparr>) = 3"
    by (simp_all add: tasks_complete sample_defs)
  note inst = complete_idempotent_final [of sample_db 3 sample_digest 0 sample_view
      "Mark_Complete (Some ''3: backup...'')" "Some (Some alice)"
      "([St_success ''Task marked as complete!''], Rerun)" "Some (Some alice)"
      "complete sample_db 3" audit audit]
  from inst mem(4,5) have "t_status (backup\<lparr>t_status := ''completed''\<rparr>) = ''completed''"
    by blast
  moreover from inst have "complete (complete sample_db 3) 3 = complete sample_db 3"
    by blast
  ultimately show ?thesis
    using schema_ok_sample_db run mem by blast
qed

section \<open>The session\<close>

lemma session_user_Some [simp]: "session_user (Some v) = v"
  by (simp add: session_user_def)

text \<open>
  C7. The session is anonymous on a new connection. Over one run of \<^verbatim>\<open>main\<close>
  (with \<open>s0\<close> the database after the bootstrap, against which the login form
  authenticates): an anonymous session stays anonymous unless the event is a login
  whose \<^verbatim>\<open>authenticate\<close> returns a user, and then it is authenticated as that
  user; a login whose \<^verbatim>\<open>authenticate\<close> returns nothing leaves it anonymous; a
  session authenticated as a user stays authenticated as that same user unless the
  event is the logout button, which makes it anonymous.
\<close>

theorem session_two_states:
  assumes "init_db sha256 s = Inr s0"
    and "main sha256 now w ev (session, s) = (out, session', s')"
  shows "session_user new_connection = None \<and>
    (session_user session = None \<longrightarrow>
       (session_user session' = None \<or>
        (\<exists>username password user. ev = Login username password \<and>
           authenticate sha256 s0 username password = Some user \<and>
           session_user session' = Some user))) \<and>
    (\<forall>username password user.
       session_user session = None \<and> ev = Login username password \<and>
       authenticate sha256 s0 username password = Some user
         \<longrightarrow> session_user session' = Some user) \<and>
    (\<forall>username password.
       session_user session = None \<and> ev = Login username password \<and>
       authenticate sha256 s0 username password = None
         \<longrightarrow> session_user session' = None) \<and>
    (\<forall>user. session_user session = Some user \<longrightarrow>
       (session_user session' = Some user \<or> (ev = Logout \<and> session_user session' = None))) \<and>
    (\<forall>user. session_user session = Some user \<and> ev = Logout \<longrightarrow> session_user session' = None)"
proof -
  have new: "session_user new_connection = None"
    by (simp add: session_user_def new_connection_def)
  have anon: "session_user session' = None \<or>
        (\<exists>username password user. ev = Login username password \<and>
           authenticate sha256 s0 username password = Some user \<and>
           session_user session' = Some user)"
    if "session_user session = None"
    using that assms
    by (cases ev) (auto simp: main_def split: option.splits)
  have login_ok: "session_user session' = Some user"
    if "session_user session = None" "ev = Login username password"
       "authenticate sha256 s0 username password = Some user" for username password user
    using that assms by (auto simp: main_def session_user_def)
  have login_bad: "session_user session' = None"
    if "session_user session = None" "ev = Login username password"
       "authenticate sha256 s0 username password = None" for username password
    using that assms by (auto simp: main_def session_user_def)
  have auth: "session_user session' = Some user \<or> (ev = Logout \<and> session_user session' = None)"
    if "session_user session = Some user" for user
    using that assms
    by (auto simp: main_def split: if_splits prod.splits)
  have logout: "session_user session' = None"
    if "session_user session = Some user" "ev = Logout" for user
    using that assms by (auto simp: main_def session_user_def)
  from new anon login_ok login_bad auth logout show ?thesis by blast
qed

theorem session_two_states_witness:
  "init_db sample_digest sample_db = Inr sample_db \<and>
   main sample_digest 0 sample_view (Login ''alice'' ''wonder'') (new_connection, sample_db) =
     (([], Rerun), Some (Some alice), sample_db) \<and>
   session_user new_connection = None \<and>
   authenticate sample_digest sample_db ''alice'' ''wonder'' = Some alice \<and>
   session_user (Some (Some alice)) = Some alice \<and>
   main sample_digest 0 sample_view Logout (Some (Some alice), sample_db) =
     (([], Rerun), Some None, sample_db) \<and>
   session_user (Some None) = None"
proof -
  have i: "init_db sample_digest sample_db = Inr sample_db"
    by (simp add: init_db_def sample_defs)
  have a: "authenticate sample_digest sample_db ''alice'' ''wonder'' = Some alice"
    by (simp add: authenticate_def hash_password_def sample_defs sample_digest_def)
  have n: "session_user new_connection = None"
    by (simp add: session_user_def new_connection_def)
  have r1: "main sample_digest 0 sample_view (Login ''alice'' ''wonder'') (new_connection, sample_db) =
     (([], Rerun), Some (Some alice), sample_db)"
    by (simp add: main_def i a n)
  have r2: "main sample_digest 0 sample_view Logout (Some (Some alice), sample_db) =
     (([], Rerun), Some None, sample_db)"
    by (simp add: main_def i session_user_def)
  from session_two_states [OF i r1] n a
  have "session_user (Some (Some alice)) = Some alice"
    by blast
  moreover from session_two_states [OF i r2] this
  have "session_user (Some None) = None"
    by blast
  ultimately show ?thesis
    using i r1 r2 n a by blast
qed

section \<open>Integrity is kept by every run\<close>

text \<open>
  The hypotheses of the theorems on states are invariants of the program: they hold
  after the bootstrap of an empty database and every run of \<^verbatim>\<open>main\<close> keeps them.
\<close>

lemma insert_users_schema_ok:
  assumes "schema_ok s" and "insert_users s username password role = Inr s'"
  shows "schema_ok s'"
proof -
  from assms(2) obtain stored where
    s': "s' = s\<lparr>users := users s @ [\<lparr>u_id = users_id_seq s, u_username = stored,
                                        u_password = password, u_role = role\<rparr>],
               users_id_seq := users_id_seq s + 1\<rparr>"
    and fresh: "stored \<notin> u_username ` set (users s)"
    by (auto simp: insert_users_def split: sum.splits if_splits)
  from assms(1) have "\<forall>u\<in>set (users s). u_id u < users_id_seq s"
    by (simp add: schema_ok_def list_all_iff)
  then have "users_id_seq s \<notin> u_id ` set (users s)"
    by auto
  with assms(1) fresh show ?thesis
    unfolding s' schema_ok_def list_all_iff by auto
qed

lemma init_db_schema_ok:
  assumes "schema_ok s" and "init_db sha256 s = Inr s0"
  shows "schema_ok s0"
  using init_db_effect [OF assms(2)] assms(1) insert_users_schema_ok by blast

lemma delete_chain_schema_ok:
  assumes "schema_ok s"
    and "delete_users (delete_tasks (delete_work_reports s i) i) i = Inr s'"
  shows "schema_ok s'"
proof -
  have seq: "users_id_seq s' = users_id_seq s" "work_reports_id_seq s' = work_reports_id_seq s"
    "tasks_id_seq s' = tasks_id_seq s"
    using assms(2)
    by (auto simp: delete_users_def delete_tasks_def delete_work_reports_def split: if_splits)
  note rows = delete_chain_tasks [OF assms(2)]
  from assms(1) show ?thesis
    unfolding schema_ok_def list_all_iff rows seq
    by (auto simp: distinct_map_filter image_iff)
qed

lemma insert_tasks_schema_ok:
  assumes "schema_ok s" and "insert_tasks s i description due now = Inr s'"
  shows "schema_ok s'"
proof -
  from assms(2) have
    s': "s' = s\<lparr>tasks := tasks s @
                      [\<lparr>t_id = tasks_id_seq s, t_user_id = i,
                        t_task_description = description, t_due_date = due,
                        t_status = ''pending'', t_created_at = now\<rparr>],
                   tasks_id_seq := tasks_id_seq s + 1\<rparr>"
    and ref: "i \<in> u_id ` set (users s)"
    by (auto simp: insert_tasks_def split: if_splits)
  from assms(1) have "\<forall>t\<in>set (tasks s). t_id t < tasks_id_seq s"
    by (simp add: schema_ok_def list_all_iff)
  then have "tasks_id_seq s \<notin> t_id ` set (tasks s)"
    by auto
  with assms(1) ref show ?thesis
    unfolding s' schema_ok_def list_all_iff by auto
qed

lemma insert_work_reports_schema_ok:
  assumes "schema_ok s" and "insert_work_reports s i d c now = Inr s'"
  shows "schema_ok s'"
proof -
  from assms(2) have
    s': "s' = s\<lparr>work_reports := work_reports s @
                      [\<lparr>wr_id = work_reports_id_seq s, wr_user_id = i,
                        wr_report_date = d, wr_report_content = c,
                        wr_created_at = now\<rparr>],
                   work_reports_id_seq := work_reports_id_seq s + 1\<rparr>"
    and ref: "i \<in> u_id ` set (users s)"
    by (auto simp: insert_work_reports_def split: if_splits)
  from assms(1) have "\<forall>wr\<in>set (work_reports s). wr_id wr < work_reports_id_seq s"
    by (simp add: schema_ok_def list_all_iff)
  then have "work_reports_id_seq s \<notin> wr_id ` set (work_reports s)"
    by auto
  with assms(1) ref show ?thesis
    unfolding s' schema_ok_def list_all_iff by auto
qed

lemma update_keeps_columns:
  "map wr_id (map (\<lambda>wr. if wr_id wr = i then wr\<lparr>wr_report_content := c\<rparr> else wr) xs)
     = map wr_id xs"
  "map wr_user_id (map (\<lambda>wr. if wr_id wr = i then wr\<lparr>wr_report_content := c\<rparr> else wr) xs)
     = map wr_user_id xs"
  for xs :: "work_report list"
  by (induction xs) simp_all

lemma schema_ok_columns:
  "schema_ok s \<longleftrightarrow>
     distinct (map u_id (users s)) \<and> (\<forall>i\<in>set (map u_id (users s)). i < users_id_seq s) \<and>
     distinct (map u_username (users s)) \<and>
     distinct (map wr_id (work_reports s)) \<and>
     (\<forall>i\<in>set (map wr_id (work_reports s)). i < work_reports_id_seq s) \<and>
     distinct (map t_id (tasks s)) \<and> (\<forall>i\<in>set (map t_id (tasks s)). i < tasks_id_seq s) \<and>
     (\<forall>i\<in>set (map wr_user_id (work_reports s)). i \<in> set (map u_id (users s))) \<and>
     (\<forall>i\<in>set (map t_user_id (tasks s)). i \<in> set (map u_id (users s)))"
  by (simp add: schema_ok_def list_all_iff)

lemma update_report_content_schema_ok:
  assumes "schema_ok s"
  shows "schema_ok (update_report_content s c i)"
proof -
  have fields: "users (update_report_content s c i) = users s"
    "tasks (update_report_content s c i) = tasks s"
    "users_id_seq (update_report_content s c i) = users_id_seq s"
    "work_reports_id_seq (update_report_content s c i) = work_reports_id_seq s"
    "tasks_id_seq (update_report_content s c i) = tasks_id_seq s"
    "work_reports (update_report_content s c i) =
       map (\<lambda>wr. if wr_id wr = i then wr\<lparr>wr_report_content := c\<rparr> else wr) (work_reports s)"
    by (simp_all add: update_report_content_def)
  from assms show ?thesis
    unfolding schema_ok_columns fields update_keeps_columns .
qed

lemma upsert_schema_ok:
  assumes "schema_ok s" and "upsert s u d c now = Inr (msg, s')"
  shows "schema_ok s'"
  using upsert_effect [OF assms(2)] assms(1)
    update_report_content_schema_ok insert_work_reports_schema_ok
  by blast

lemma complete_keeps_user_ids:
  "map t_user_id (map (\<lambda>t. if t_id t = i then t\<lparr>t_status := ''completed''\<rparr> else t) xs)
     = map t_user_id xs"
  for xs :: "task list"
  by (induction xs) simp_all

lemma complete_schema_ok:
  assumes "schema_ok s"
  shows "schema_ok (complete s i)"
proof -
  have fields: "users (complete s i) = users s"
    "work_reports (complete s i) = work_reports s"
    "users_id_seq (complete s i) = users_id_seq s"
    "work_reports_id_seq (complete s i) = work_reports_id_seq s"
    "tasks_id_seq (complete s i) = tasks_id_seq s"
    by (simp_all add: complete_def)
  from assms show ?thesis
    unfolding schema_ok_columns fields tasks_complete complete_keeps_ids complete_keeps_user_ids .
qed

lemma main_schema_ok:
  assumes "schema_ok s" and "main sha256 now w ev (session, s) = (out, session', s')"
  shows "schema_ok s'"
proof -
  from main_effect [OF assms(2)] obtain s0 where s0: "init_db sha256 s = Inr s0"
    and eff: "s' = s0 \<or>
      (\<exists>username password. username \<noteq> [] \<and>
         insert_users s0 username (sha256 password) ''employee'' = Inr s') \<or>
      (\<exists>e\<in>set (select_employees s0).
         delete_users (delete_tasks (delete_work_reports s0 (u_id e)) (u_id e)) (u_id e) = Inr s') \<or>
      (\<exists>e\<in>set (select_employees s0). \<exists>description due.
         insert_tasks s0 (u_id e) description due now = Inr s') \<or>
      (\<exists>uid d c msg. upsert s0 uid d c now = Inr (msg, s')) \<or>
      (\<exists>t\<in>set (tasks s0). t_status t = ''pending'' \<and> s' = complete s0 (t_id t))"
    by blast
  note ok0 = init_db_schema_ok [OF assms(1) s0]
  from eff show ?thesis
  proof (elim disjE exE bexE conjE)
    assume "s' = s0"
    with ok0 show ?thesis by simp
  next
    fix username password
    assume "insert_users s0 username (sha256 password) ''employee'' = Inr s'"
    with ok0 show ?thesis by (rule insert_users_schema_ok)
  next
    fix e :: user
    assume "delete_users (delete_tasks (delete_work_reports s0 (u_id e)) (u_id e)) (u_id e) = Inr s'"
    with ok0 show ?thesis by (rule delete_chain_schema_ok)
  next
    fix e :: user and description due
    assume "insert_tasks s0 (u_id e) description due now = Inr s'"
    with ok0 show ?thesis by (rule insert_tasks_schema_ok)
  next
    fix uid d c msg
    assume "upsert s0 uid d c now = Inr (msg, s')"
    with ok0 show ?thesis by (rule upsert_schema_ok)
  next
    fix t :: task
    assume "s' = complete s0 (t_id t)"
    with ok0 show ?thesis by (simp add: complete_schema_ok)
  qed
qed

lemma upsert_one_report_per_day:
  assumes "one_report_per_day s" and "upsert s u d c now = Inr (msg, s')"
  shows "one_report_per_day s'"
  using upsert_effect [OF assms(2)]
proof (elim disjE bexE conjE)
  fix r :: work_report
  assume "s' = update_report_content s c (wr_id r)"
  with assms(1) show ?thesis by (simp add: one_report_per_day_update)
next
  assume none: "\<forall>r\<in>set (work_reports s). \<not> (wr_user_id r = u \<and> wr_report_date r = d)"
    and "insert_work_reports s u d c now = Inr s'"
  then have "work_reports s' = work_reports s @
      [\<lparr>wr_id = work_reports_id_seq s, wr_user_id = u, wr_report_date = d,
        wr_report_content = c, wr_created_at = now\<rparr>]"
    by (auto simp: insert_work_reports_def split: if_splits)
  with assms(1) none show ?thesis
    by (auto simp: one_report_per_day_def)
qed

lemma main_one_report_per_day:
  assumes "one_report_per_day s" and "main sha256 now w ev (session, s) = (out, session', s')"
  shows "one_report_per_day s'"
proof -
  from main_effect [OF assms(2)] obtain s0 where s0: "init_db sha256 s = Inr s0"
    and eff: "s' = s0 \<or>
      (\<exists>username password. username \<noteq> [] \<and>
         insert_users s0 username (sha256 password) ''employee'' = Inr s') \<or>
      (\<exists>e\<in>set (select_employees s0).
         delete_users (delete_tasks (delete_work_reports s0 (u_id e)) (u_id e)) (u_id e) = Inr s') \<or>
      (\<exists>e\<in>set (select_employees s0). \<exists>description due.
         insert_tasks s0 (u_id e) description due now = Inr s') \<or>
      (\<exists>uid d c msg. upsert s0 uid d c now = Inr (msg, s')) \<or>
      (\<exists>t\<in>set (tasks s0). t_status t = ''pending'' \<and> s' = complete s0 (t_id t))"
    by blast
  from init_db_tasks [OF s0] assms(1) have inv0: "one_report_per_day s0"
    by (simp add: one_report_per_day_def)
  from eff show ?thesis
  proof (elim disjE exE bexE conjE)
    assume "s' = s0"
    with inv0 show ?thesis by simp
  next
    fix username password
    assume "insert_users s0 username (sha256 password) ''employee'' = Inr s'"
    from insert_users_tasks [OF this] inv0 show ?thesis
      by (simp add: one_report_per_day_def)
  next
    fix e :: user
    assume "delete_users (delete_tasks (delete_work_reports s0 (u_id e)) (u_id e)) (u_id e) = Inr s'"
    from delete_chain_tasks(2) [OF this] inv0 show ?thesis
      by (simp add: one_report_per_day_def distinct_map_filter)
  next
    fix e :: user and description due
    assume "insert_tasks s0 (u_id e) description due now = Inr s'"
    from insert_tasks_tasks(2) [OF this] inv0 show ?thesis
      by (simp add: one_report_per_day_def)
  next
    fix uid d c msg
    assume "upsert s0 uid d c now = Inr (msg, s')"
    with inv0 show ?thesis by (rule upsert_one_report_per_day)
  next
    fix t :: task
    assume "s' = complete s0 (t_id t)"
    with inv0 show ?thesis by (simp add: one_report_per_day_def complete_def)
  qed
qed

lemma init_db_empty_db:
  "init_db sha256 empty_db =
     Inr (empty_db\<lparr>users := [\<lparr>u_id = 1, u_username = ''admin'',
                                 u_password = sha256 ''admin123'', u_role = ''admin''\<rparr>],
                   users_id_seq := 2\<rparr>)"
  by (simp add: init_db_def empty_db_def insert_users_def varchar_def)

lemma bootstrap_invariants:
  assumes "init_db sha256 empty_db = Inr s0"
  shows "schema_ok s0 \<and> one_report_per_day s0 \<and> only_seeded_admin s0"
  using assms unfolding init_db_empty_db
  by (auto simp: schema_ok_def one_report_per_day_def only_seeded_admin_def admins_def empty_db_def)

section \<open>Rows of other users\<close>

lemma set_order_by_report_date_desc [simp]:
  "set (order_by_report_date_desc col rows) = set rows"
  by (simp add: order_by_report_date_desc_def)

lemma employee_reports_query_rows:
  assumes "employee_reports_query s u p a = Inr rows" and "row \<in> set rows"
  shows "\<exists>wr\<in>set (work_reports s). wr_user_id wr = u \<and>
           row = (wr_report_date wr, wr_report_content wr)"
  using assms
  by (auto simp: employee_reports_query_def split: sum.splits)

lemma update_other_users_rows:
  assumes "distinct (map wr_id xs)" and "r \<in> set xs" and "wr_user_id r = u"
  shows "filter (\<lambda>wr. wr_user_id wr \<noteq> u)
           (map (\<lambda>wr. if wr_id wr = wr_id r then wr\<lparr>wr_report_content := c\<rparr> else wr) xs)
         = filter (\<lambda>wr. wr_user_id wr \<noteq> u) xs"
  using assms
proof (induction xs)
  case Nil
  then show ?case by simp
next
  case (Cons x xs)
  show ?case
  proof (cases "r = x")
    case True
    with Cons.prems have "\<forall>y\<in>set xs. wr_id y \<noteq> wr_id r"
      by (auto simp: image_iff)
    then have "map (\<lambda>wr. if wr_id wr = wr_id r then wr\<lparr>wr_report_content := c\<rparr> else wr) xs = xs"
      by (simp add: map_idI)
    with True Cons.prems(3) show ?thesis by simp
  next
    case False
    with Cons.prems have mem: "r \<in> set xs" and neq: "wr_id x \<noteq> wr_id r"
      by (auto simp: image_iff)
    from Cons.IH [OF _ mem Cons.prems(3)] Cons.prems(1) neq show ?thesis by simp
  qed
qed

lemma upsert_other_users_rows:
  assumes "schema_ok s" and "upsert s u d c now = Inr (msg, s')"
  shows "filter (\<lambda>wr. wr_user_id wr \<noteq> u) (work_reports s')
           = filter (\<lambda>wr. wr_user_id wr \<noteq> u) (work_reports s)"
proof -
  from assms(1) have dist: "distinct (map wr_id (work_reports s))"
    by (simp add: schema_ok_def)
  from upsert_effect [OF assms(2)] show ?thesis
  proof (elim disjE bexE conjE)
    fix r :: work_report
    assume "r \<in> set (work_reports s)" and "wr_user_id r = u"
      and "s' = update_report_content s c (wr_id r)"
    then show ?thesis
      using update_other_users_rows [OF dist, of r u c]
      by (simp add: update_report_content_def)
  next
    assume "insert_work_reports s u d c now = Inr s'"
    then show ?thesis
      by (auto simp: insert_work_reports_def split: if_splits)
  qed
qed

lemma employee_submit_report_other_users_rows:
  assumes "schema_ok s" and "employee_submit_report s u d c b now = Inr (shown, s')"
  shows "filter (\<lambda>wr. wr_user_id wr \<noteq> u) (work_reports s')
           = filter (\<lambda>wr. wr_user_id wr \<noteq> u) (work_reports s)"
  using employee_submit_report_effect [OF assms(2)] upsert_other_users_rows [OF assms(1)]
  by auto

lemma main_employee_effect:
  assumes "main sha256 now w ev (session, s) = (out, session', s')"
    and "session_user session = Some user" and "u_role user \<noteq> ''admin''"
  shows "\<exists>s0. init_db sha256 s = Inr s0 \<and>
     (s' = s0 \<or>
      (\<exists>d c msg. upsert s0 (u_id user) d c now = Inr (msg, s')) \<or>
      (\<exists>t\<in>set (tasks s0). s' = complete s0 (t_id t)))"
proof -
  obtain s0 where s0: "init_db sha256 s = Inr s0"
    using init_db_succeeds by blast
  show ?thesis
  proof (cases "ev = Logout")
    case True
    with assms s0 have "s' = s0"
      by (simp add: main_def)
    with s0 show ?thesis by blast
  next
    case False
    with assms s0 obtain shown ended where
      "employee_dashboard now w ev (u_id user) s0 = (shown, ended, s')"
      by (auto simp: main_def split: prod.splits)
    from employee_dashboard_effect [OF this] s0 show ?thesis by blast
  qed
qed

text \<open>
  C8. Every row that the employee's report view returns for user \<open>u\<close> is the date
  and content of a stored report of \<open>u\<close>. On a database that keeps the schema's
  constraints, the report form of \<open>u\<close> leaves the reports of every other user as
  they were, row for row; and so does every run of \<^verbatim>\<open>main\<close> in a session
  authenticated as a user whose role is not admin, for the reports of users other
  than the session's.
\<close>

theorem employee_touches_own_rows:
  "(\<forall>rows. employee_reports_query s u p a = Inr rows \<longrightarrow>
      (\<forall>row\<in>set rows. \<exists>wr\<in>set (work_reports s).
          wr_user_id wr = u \<and> row = (wr_report_date wr, wr_report_content wr))) \<and>
   (schema_ok s \<and> employee_submit_report s u d c b now = Inr (shown, s') \<longrightarrow>
      filter (\<lambda>wr. wr_user_id wr \<noteq> u) (work_reports s')
        = filter (\<lambda>wr. wr_user_id wr \<noteq> u) (work_reports s)) \<and>
   (schema_ok s \<and> session_user session = Some user \<and> u_role user \<noteq> ''admin'' \<and>
    main sha256 now w ev (session, s) = (out, session', s'') \<longrightarrow>
      filter (\<lambda>wr. wr_user_id wr \<noteq> u_id user) (work_reports s'')
        = filter (\<lambda>wr. wr_user_id wr \<noteq> u_id user) (work_reports s))"
proof (intro conjI allI impI ballI)
  fix rows row
  assume "employee_reports_query s u p a = Inr rows" and "row \<in> set rows"
  then show "\<exists>wr\<in>set (work_reports s).
      wr_user_id wr = u \<and> row = (wr_report_date wr, wr_report_content wr)"
    by (rule employee_reports_query_rows)
next
  assume "schema_ok s \<and> employee_submit_report s u d c b now = Inr (shown, s')"
  then show "filter (\<lambda>wr. wr_user_id wr \<noteq> u) (work_reports s')
        = filter (\<lambda>wr. wr_user_id wr \<noteq> u) (work_reports s)"
    using employee_submit_report_other_users_rows by blast
next
  assume h: "schema_ok s \<and> session_user session = Some user \<and> u_role user \<noteq> ''admin'' \<and>
    main sha256 now w ev (session, s) = (out, session', s'')"
  then obtain s0 where s0: "init_db sha256 s = Inr s0"
    and eff: "s'' = s0 \<or>
      (\<exists>d c msg. upsert s0 (u_id user) d c now = Inr (msg, s'')) \<or>
      (\<exists>t\<in>set (tasks s0). s'' = complete s0 (t_id t))"
    using main_employee_effect [of sha256 now w ev session s out session' s'' user] by blast
  from h have ok0: "schema_ok s0"
    using init_db_schema_ok [OF _ s0] by blast
  have same0: "work_reports s0 = work_reports s"
    using init_db_tasks [OF s0] by simp
  from eff have "filter (\<lambda>wr. wr_user_id wr \<noteq> u_id user) (work_reports s'')
        = filter (\<lambda>wr. wr_user_id wr \<noteq> u_id user) (work_reports s0)"
  proof (elim disjE exE bexE)
    assume "s'' = s0"
    then show ?thesis by simp
  next
    fix d c msg
    assume "upsert s0 (u_id user) d c now = Inr (msg, s'')"
    with ok0 show ?thesis by (rule upsert_other_users_rows)
  next
    fix t :: task
    assume "s'' = complete s0 (t_id t)"
    then show ?thesis by (simp add: complete_def)
  qed
  with same0 show "filter (\<lambda>wr. wr_user_id wr \<noteq> u_id user) (work_reports s'')
        = filter (\<lambda>wr. wr_user_id wr \<noteq> u_id user) (work_reports s)"
    by simp
qed

theorem employee_touches_own_rows_witness:
  "schema_ok sample_db \<and>
   employee_submit_report sample_db 2 \<lparr>year = 2024, month = 3, day = 18\<rparr> ''done'' True 400 =
     Inr ([St_success ''Report updated successfully!''], update_report_content sample_db ''done'' 3) \<and>
   filter (\<lambda>wr. wr_user_id wr \<noteq> 2) (work_reports (update_report_content sample_db ''done'' 3))
     = filter (\<lambda>wr. wr_user_id wr \<noteq> 2) (work_reports sample_db) \<and>
   length (filter (\<lambda>wr. wr_user_id wr \<noteq> 2) (work_reports sample_db)) = 1"
proof -
  have run: "employee_submit_report sample_db 2 \<lparr>year = 2024, month = 3, day = 18\<rparr> ''done''
               True 400 =
     Inr ([St_success ''Report updated successfully!''], update_report_content sample_db ''done'' 3)"
    by (simp add: employee_submit_report_def upsert_def sample_defs)
  have others: "length (filter (\<lambda>wr. wr_user_id wr \<noteq> 2) (work_reports sample_db)) = 1"
    by (simp add: sample_defs)
  from employee_touches_own_rows [where s = sample_db and u = 2
      and d = "\<lparr>year = 2024, month = 3, day = 18\<rparr>" and c = "''done''" and b = True
      and now = 400 and shown = "[St_success ''Report updated successfully!'']"
      and s' = "update_report_content sample_db ''done'' 3"]
    schema_ok_sample_db run
  have "filter (\<lambda>wr. wr_user_id wr \<noteq> 2)
          (work_reports (update_report_content sample_db ''done'' 3))
     = filter (\<lambda>wr. wr_user_id wr \<noteq> 2) (work_reports sample_db)"
    by blast
  with schema_ok_sample_db run others show ?thesis by blast
qed

section \<open>Blank required fields\<close>

text \<open>
  C9. A submitted form with an empty required field never changes the database; it
  shows a warning instead of running a statement. The report form with blank
  content warns "Please enter your work report!"; the account form with an empty
  username or password warns "Please fill all fields!"; the task form (which exists
  when there is an employee to select) with an empty selection or description warns
  "Please fill all fields!" and then only lists the tasks. Without any employee the
  task page has no form and changes nothing either.
\<close>

theorem blank_fields_change_nothing:
  "employee_submit_report s u d [] True now =
     Inr ([St_warning ''Please enter your work report!''], s) \<and>
   (username = [] \<or> password = [] \<longrightarrow>
      admin_create_employee sha256 s username password True =
        Inr ([St_warning ''Please fill all fields!''], s)) \<and>
   (select_employees s \<noteq> [] \<and> (selected = [] \<or> description = []) \<longrightarrow>
      (\<exists>shown table.
         admin_assign_task s selected description due True now =
           Inr (St_warning ''Please fill all fields!'' # shown, table, s) \<and>
         table = existing_tasks_query s)) \<and>
   (selected = [] \<or> description = [] \<longrightarrow>
      (\<exists>shown table.
         admin_assign_task s selected description due True now = Inr (shown, table, s)))"
proof (intro conjI impI)
  show "employee_submit_report s u d [] True now =
     Inr ([St_warning ''Please enter your work report!''], s)"
    by (simp add: employee_submit_report_def)
next
  assume "username = [] \<or> password = []"
  then show "admin_create_employee sha256 s username password True =
        Inr ([St_warning ''Please fill all fields!''], s)"
    by (auto simp: admin_create_employee_def)
next
  assume "select_employees s \<noteq> [] \<and> (selected = [] \<or> description = [])"
  then show "\<exists>shown table.
         admin_assign_task s selected description due True now =
           Inr (St_warning ''Please fill all fields!'' # shown, table, s) \<and>
         table = existing_tasks_query s"
    by (auto simp: admin_assign_task_def Let_def)
next
  assume "selected = [] \<or> description = []"
  then show "\<exists>shown table.
         admin_assign_task s selected description due True now = Inr (shown, table, s)"
    by (auto simp: admin_assign_task_def Let_def)
qed

theorem blank_fields_change_nothing_witness:
  "select_employees sample_db \<noteq> [] \<and>
   employee_submit_report sample_db 2 \<lparr>year = 2024, month = 3, day = 18\<rparr> [] True 400 =
     Inr ([St_warning ''Please enter your work report!''], sample_db) \<and>
   admin_create_employee sample_digest sample_db [] ''secret'' True =
     Inr ([St_warning ''Please fill all fields!''], sample_db) \<and>
   admin_create_employee sample_digest sample_db ''carol'' [] True =
     Inr ([St_warning ''Please fill all fields!''], sample_db) \<and>
   (\<exists>shown table.
      admin_assign_task sample_db ''alice'' [] \<lparr>year = 2024, month = 4, day = 1\<rparr> True 400 =
        Inr (St_warning ''Please fill all fields!'' # shown, table, sample_db))"
proof -
  have h: "select_employees sample_db \<noteq> []"
    by (simp add: select_employees_def sample_defs)
  from blank_fields_change_nothing [of sample_db 2 "\<lparr>year = 2024, month = 3, day = 18\<rparr>" 400
      "[]" "''secret''" sample_digest]
  have a: "employee_submit_report sample_db 2 \<lparr>year = 2024, month = 3, day = 18\<rparr> [] True 400 =
      Inr ([St_warning ''Please enter your work report!''], sample_db)"
    and b: "admin_create_employee sample_digest sample_db [] ''secret'' True =
      Inr ([St_warning ''Please fill all fields!''], sample_db)"
    by blast+
  from blank_fields_change_nothing [of sample_db _ _ _ "''carol''" "[]" sample_digest]
  have c: "admin_create_employee sample_digest sample_db ''carol'' [] True =
      Inr ([St_warning ''Please fill all fields!''], sample_db)"
    by blast
  from h blank_fields_change_nothing [where s = sample_db and selected = "''alice''"
      and description = "[]" and due = "\<lparr>year = 2024, month = 4, day = 1\<rparr>" and now = 400]
  have e: "\<exists>shown table.
      admin_assign_task sample_db ''alice'' [] \<lparr>year = 2024, month = 4, day = 1\<rparr> True 400 =
        Inr (St_warning ''Please fill all fields!'' # shown, table, sample_db)"
    by blast
  from h a b c e show ?thesis by blast
qed

section \<open>The admin account\<close>

lemma only_seeded_admin_init_db:
  assumes "only_seeded_admin s"
  shows "init_db sha256 s = Inr s"
proof -
  from assms obtain a where "admins s = [a]" and "u_username a = ''admin''"
    by (auto simp: only_seeded_admin_def split: list.splits)
  then have "a \<in> set (admins s)"
    by simp
  then have "a \<in> set (users s)"
    by (simp add: admins_def)
  with \<open>u_username a = ''admin''\<close> have "find (\<lambda>u. u_username u = ''admin'') (users s) \<noteq> None"
    by (auto simp: find_None_iff)
  then show ?thesis by (auto simp: init_db_def)
qed

lemma insert_employee_admins:
  assumes "insert_users s username password ''employee'' = Inr s'"
  shows "\<exists>u. users s' = users s @ [u] \<and> u_role u = ''employee''" and "admins s' = admins s"
  using assms by (auto simp: insert_users_def admins_def split: sum.splits if_splits)

lemma delete_employee_admins:
  assumes "schema_ok s" and "e \<in> set (select_employees s)"
    and "delete_users (delete_tasks (delete_work_reports s (u_id e)) (u_id e)) (u_id e) = Inr s'"
  shows "admins s' = admins s"
    and "\<forall>u\<in>set (users s). u \<notin> set (users s') \<longrightarrow> u_role u = ''employee''"
proof -
  from assms(1) have inj: "inj_on u_id (set (users s))"
    by (simp add: schema_ok_def distinct_map)
  from assms(2) have e: "e \<in> set (users s)" "u_role e = ''employee''"
    by (simp_all add: select_employees_def)
  have only: "u = e" if "u \<in> set (users s)" "u_id u = u_id e" for u
    using inj_onD [OF inj that(2,1) e(1)] .
  have employee: "u_role u = ''employee''" if "u \<in> set (users s)" "u_id u = u_id e" for u
    using only [OF that] e(2) by simp
  note rows = delete_chain_tasks(3) [OF assms(3)]
  have "filter (\<lambda>u. u_role u = ''admin'') (filter (\<lambda>u. u_id u \<noteq> u_id e) (users s))
          = filter (\<lambda>u. u_role u = ''admin'') (users s)"
    unfolding filter_filter
    by (rule filter_cong [OF refl]) (use employee in fastforce)
  then show "admins s' = admins s"
    by (simp add: admins_def rows)
  show "\<forall>u\<in>set (users s). u \<notin> set (users s') \<longrightarrow> u_role u = ''employee''"
    unfolding rows using employee by auto
qed

lemma main_admins:
  assumes "schema_ok s" and "only_seeded_admin s"
    and "main sha256 now w ev (session, s) = (out, session', s')"
  shows "admins s' = admins s"
proof -
  from main_effect [OF assms(3)] only_seeded_admin_init_db [OF assms(2), of sha256]
  have eff: "s' = s \<or>
      (\<exists>username password. username \<noteq> [] \<and>
         insert_users s username (sha256 password) ''employee'' = Inr s') \<or>
      (\<exists>e\<in>set (select_employees s).
         delete_users (delete_tasks (delete_work_reports s (u_id e)) (u_id e)) (u_id e) = Inr s') \<or>
      (\<exists>e\<in>set (select_employees s). \<exists>description due.
         insert_tasks s (u_id e) description due now = Inr s') \<or>
      (\<exists>uid d c msg. upsert s uid d c now = Inr (msg, s')) \<or>
      (\<exists>t\<in>set (tasks s). t_status t = ''pending'' \<and> s' = complete s (t_id t))"
    by auto
  then show ?thesis
  proof (elim disjE exE bexE conjE)
    assume "s' = s"
    then show ?thesis by simp
  next
    fix username password
    assume "insert_users s username (sha256 password) ''employee'' = Inr s'"
    then show ?thesis by (rule insert_employee_admins(2))
  next
    fix e :: user
    assume "e \<in> set (select_employees s)"
      and "delete_users (delete_tasks (delete_work_reports s (u_id e)) (u_id e)) (u_id e) = Inr s'"
    with assms(1) show ?thesis by (rule delete_employee_admins(1))
  next
    fix e :: user and description due
    assume "insert_tasks s (u_id e) description due now = Inr s'"
    from insert_tasks_tasks(3) [OF this] show ?thesis by (simp add: admins_def)
  next
    fix uid d c msg
    assume "upsert s uid d c now = Inr (msg, s')"
    from upsert_tasks [OF this] show ?thesis by (simp add: admins_def)
  next
    fix t :: task
    assume "s' = complete s (t_id t)"
    then show ?thesis by (simp add: admins_def complete_def)
  qed
qed

text \<open>
  Every database that the program can produce satisfies the three invariants, and
  no username in it is empty.
\<close>

lemma varchar_nonempty:
  assumes "varchar n v = Inr stored" and "v \<noteq> []" and "0 < n"
  shows "stored \<noteq> []"
  using assms by (auto simp: varchar_def split: if_splits)

lemma insert_users_usernames:
  assumes "insert_users s username password role = Inr s'" and "username \<noteq> []"
    and "\<forall>u\<in>set (users s). u_username u \<noteq> []"
  shows "\<forall>u\<in>set (users s'). u_username u \<noteq> []"
proof -
  from assms(1) obtain stored where v: "varchar 50 username = Inr stored"
    and s': "users s' = users s @ [\<lparr>u_id = users_id_seq s, u_username = stored,
                                     u_password = password, u_role = role\<rparr>]"
    by (auto simp: insert_users_def split: sum.splits if_splits)
  from varchar_nonempty [OF v assms(2)] have "stored \<noteq> []"
    by simp
  with assms(3) show ?thesis
    unfolding s' by auto
qed

lemma main_usernames:
  assumes "main sha256 now w ev (session, s) = (out, session', s')"
    and "\<forall>u\<in>set (users s). u_username u \<noteq> []"
  shows "\<forall>u\<in>set (users s'). u_username u \<noteq> []"
proof -
  from main_effect [OF assms(1)] obtain s0 where s0: "init_db sha256 s = Inr s0"
    and eff: "s' = s0 \<or>
      (\<exists>username password. username \<noteq> [] \<and>
         insert_users s0 username (sha256 password) ''employee'' = Inr s') \<or>
      (\<exists>e\<in>set (select_employees s0).
         delete_users (delete_tasks (delete_work_reports s0 (u_id e)) (u_id e)) (u_id e) = Inr s') \<or>
      (\<exists>e\<in>set (select_employees s0). \<exists>description due.
         insert_tasks s0 (u_id e) description due now = Inr s') \<or>
      (\<exists>uid d c msg. upsert s0 uid d c now = Inr (msg, s')) \<or>
      (\<exists>t\<in>set (tasks s0). t_status t = ''pending'' \<and> s' = complete s0 (t_id t))"
    by blast
  from init_db_effect [OF s0] assms(2) have inv0: "\<forall>u\<in>set (users s0). u_username u \<noteq> []"
    using insert_users_usernames [of s "''admin''" "sha256 ''admin123''" "''admin''" s0]
    by auto
  from eff show ?thesis
  proof (elim disjE exE bexE conjE)
    assume "s' = s0"
    with inv0 show ?thesis by simp
  next
    fix username password
    assume "username \<noteq> []"
      and "insert_users s0 username (sha256 password) ''employee'' = Inr s'"
    from insert_users_usernames [OF this(2,1) inv0] show ?thesis .
  next
    fix e :: user
    assume "delete_users (delete_tasks (delete_work_reports s0 (u_id e)) (u_id e)) (u_id e) = Inr s'"
    from delete_chain_tasks(3) [OF this] inv0 show ?thesis by simp
  next
    fix e :: user and description due
    assume "insert_tasks s0 (u_id e) description due now = Inr s'"
    from insert_tasks_tasks(3) [OF this] inv0 show ?thesis by simp
  next
    fix uid d c msg
    assume "upsert s0 uid d c now = Inr (msg, s')"
    from upsert_tasks [OF this] inv0 show ?thesis by simp
  next
    fix t :: task
    assume "s' = complete s0 (t_id t)"
    with inv0 show ?thesis by (simp add: complete_def)
  qed
qed

lemma reachable_usernames:
  assumes "reachable sha256 s"
  shows "\<forall>u\<in>set (users s). u_username u \<noteq> []"
  using assms
proof (induction rule: reachable.induct)
  case (boot s0)
  then show ?case unfolding init_db_empty_db by auto
next
  case (run s now w ev session out session' s')
  then show ?case using main_usernames by blast
qed


lemma reachable_invariants:
  assumes "reachable sha256 s"
  shows "schema_ok s \<and> one_report_per_day s \<and> only_seeded_admin s"
  using assms
proof (induction rule: reachable.induct)
  case (boot s0)
  then show ?case by (rule bootstrap_invariants)
next
  case (run s now w ev session out session' s')
  then have inv: "schema_ok s" "one_report_per_day s" "only_seeded_admin s"
    by simp_all
  note step = \<open>main sha256 now w ev (session, s) = (out, session', s')\<close>
  have "admins s' = admins s"
    using inv(1,3) step by (rule main_admins)
  with inv(3) have "only_seeded_admin s'"
    by (simp add: only_seeded_admin_def)
  moreover have "schema_ok s'"
    using inv(1) step by (rule main_schema_ok)
  moreover have "one_report_per_day s'"
    using inv(2) step by (rule main_one_report_per_day)
  ultimately show ?case by simp
qed

text \<open>
  C10. The bootstrap of an empty database leaves the seeded admin as the only
  account of role admin. The account form inserts nothing or one user of role
  employee; the removal page, on a database that keeps the schema's constraints,
  removes only users of role employee and leaves the accounts of role admin as
  they were. So every run of \<^verbatim>\<open>main\<close>, whatever the event and the session, on a
  database that keeps the schema's constraints and where the seeded admin is the
  only admin, leaves the accounts of role admin unchanged: the seeded admin is
  still there and still the only one.
\<close>

theorem seeded_admin_stays_alone:
  "(\<exists>s0. init_db sha256 empty_db = Inr s0 \<and> schema_ok s0 \<and> only_seeded_admin s0) \<and>
   (\<forall>shown s'. admin_create_employee sha256 s username password b = Inr (shown, s') \<longrightarrow>
      users s' = users s \<or> (\<exists>u. users s' = users s @ [u] \<and> u_role u = ''employee'')) \<and>
   (\<forall>shown s'. schema_ok s \<and> admin_manage_employees s selected b = Inr (shown, s') \<longrightarrow>
      admins s' = admins s \<and>
      (\<forall>u\<in>set (users s). u \<notin> set (users s') \<longrightarrow> u_role u = ''employee'')) \<and>
   (schema_ok s \<and> only_seeded_admin s \<and>
    main sha256 now w ev (session, s) = (out, session', s'') \<longrightarrow>
      admins s'' = admins s \<and> only_seeded_admin s'' \<and> schema_ok s'')"
proof -
  have boot: "\<exists>s0. init_db sha256 empty_db = Inr s0 \<and> schema_ok s0 \<and> only_seeded_admin s0"
    using bootstrap_invariants [of sha256] init_db_succeeds [of sha256 empty_db] by blast
  have create: "users s' = users s \<or> (\<exists>u. users s' = users s @ [u] \<and> u_role u = ''employee'')"
    if "admin_create_employee sha256 s username password b = Inr (shown, s')" for shown s'
    using admin_create_employee_effect [OF that] insert_employee_admins(1) by blast
  have remove: "admins s' = admins s \<and>
      (\<forall>u\<in>set (users s). u \<notin> set (users s') \<longrightarrow> u_role u = ''employee'')"
    if h: "schema_ok s \<and> admin_manage_employees s selected b = Inr (shown, s')" for shown s'
  proof -
    from h have "s' = s \<or> (\<exists>e\<in>set (select_employees s).
        delete_users (delete_tasks (delete_work_reports s (u_id e)) (u_id e)) (u_id e) = Inr s')"
      using admin_manage_employees_effect by blast
    with h show ?thesis
      using delete_employee_admins by blast
  qed
  have run: "admins s'' = admins s \<and> only_seeded_admin s'' \<and> schema_ok s''"
    if h: "schema_ok s \<and> only_seeded_admin s \<and>
      main sha256 now w ev (session, s) = (out, session', s'')"
  proof -
    from h have same: "admins s'' = admins s"
      using main_admins by blast
    moreover from same h have "only_seeded_admin s''"
      by (simp add: only_seeded_admin_def)
    moreover from h have "schema_ok s''"
      using main_schema_ok by blast
    ultimately show ?thesis by blast
  qed
  from boot create remove run show ?thesis by blast
qed

lemma only_seeded_admin_sample_db: "only_seeded_admin sample_db"
  by (simp add: only_seeded_admin_def admins_def sample_defs)

theorem seeded_admin_stays_alone_witness:
  "schema_ok sample_db \<and> only_seeded_admin sample_db \<and>
   main sample_digest 0 sample_view (Remove_Employee (Some ''bob'')) (Some (Some admin_row), sample_db) =
     (([St_success ''Employee bob removed successfully!''], Rerun), Some (Some admin_row),
      sample_db\<lparr>users := [admin_row, alice],
                work_reports := filter (\<lambda>wr. wr_user_id wr \<noteq> 3) (work_reports sample_db)\<rparr>) \<and>
   admins (sample_db\<lparr>users := [admin_row, alice],
                work_reports := filter (\<lambda>wr. wr_user_id wr \<noteq> 3) (work_reports sample_db)\<rparr>)
     = admins sample_db \<and>
   admins sample_db = [admin_row]"
proof -
  let ?s' = "sample_db\<lparr>users := [admin_row, alice],
                work_reports := filter (\<lambda>wr. wr_user_id wr \<noteq> 3) (work_reports sample_db)\<rparr>"
  have i: "init_db sample_digest sample_db = Inr sample_db"
    by (simp add: init_db_def sample_defs)
  have page: "admin_manage_employees sample_db (Some ''bob'') True =
      Inr ([St_success ''Employee bob removed successfully!''], ?s')"
    by (simp add: admin_manage_employees_def select_employees_def delete_users_def
          delete_tasks_def delete_work_reports_def sample_defs Let_def image_iff)
  have run: "main sample_digest 0 sample_view (Remove_Employee (Some ''bob''))
               (Some (Some admin_row), sample_db) =
     (([St_success ''Employee bob removed successfully!''], Rerun), Some (Some admin_row), ?s')"
    by (simp add: main_def session_user_def i admin_row_def admin_dashboard_def then_page_def
          then_page_rerun_def create_employee_tab_def admin_create_employee_def
          manage_employees_tab_def page)
  have a: "admins sample_db = [admin_row]"
    by (simp add: admins_def sample_defs)
  from seeded_admin_stays_alone [of sample_digest sample_db _ _ _ _ 0 sample_view
      "Remove_Employee (Some ''bob'')" "Some (Some admin_row)"
      "([St_success ''Employee bob removed successfully!''], Rerun)" "Some (Some admin_row)" ?s']
    schema_ok_sample_db only_seeded_admin_sample_db run
  have "admins ?s' = admins sample_db"
    by blast
  with schema_ok_sample_db only_seeded_admin_sample_db run a show ?thesis by blast
qed

end
